theory Spec2Isabelle
  imports Main "HOL-Library.Sublist"
begin

section \<open>Go values used by main.go\<close>

text \<open>
  An \<^verbatim>\<open>error\<close> value is represented by its message.  A run of the program ends in one
  of four ways: \<^verbatim>\<open>main\<close> returns, \<^verbatim>\<open>log.Fatalf\<close> prints and calls \<^verbatim>\<open>os.Exit(1)\<close>,
  a panic unwinds (exit status 2), or the main goroutine stays blocked.
\<close>

type_synonym go_error = string

datatype go_panic = SliceBoundsOutOfRange | PanicError go_error

datatype fmt_arg = ArgErr go_error | ArgInt int | ArgStr string

datatype exit_status =
    ExitOK
  | Fatal string "fmt_arg list"
  | Panicked go_panic
  | BlockedForever

text \<open>
  \<^verbatim>\<open>strings.LastIndex(s, sep)\<close> for a one-byte separator: the index of the last
  occurrence, or \<open>-1\<close>.  main.go calls it with \<^verbatim>\<open>"/"\<close> and \<^verbatim>\<open>"."\<close> only.
\<close>

fun LastIndex :: "string \<Rightarrow> char \<Rightarrow> int" where
  "LastIndex [] c = - 1"
| "LastIndex (x # xs) c =
     (let r = LastIndex xs c
      in if 0 \<le> r then r + 1 else if x = c then 0 else - 1)"

text \<open>
  The slice expression \<^verbatim>\<open>s[lo:hi]\<close> on a string.  Go panics unless
  \<open>0 \<le> lo \<le> hi \<le> len(s)\<close>.
\<close>

definition sliceStr :: "string \<Rightarrow> int \<Rightarrow> int \<Rightarrow> go_panic + string" where
  "sliceStr s lo hi =
     (if 0 \<le> lo \<and> lo \<le> hi \<and> hi \<le> int (length s)
      then Inr (take (nat (hi - lo)) (drop (nat lo) s))
      else Inl SliceBoundsOutOfRange)"

section \<open>Slices of strings and the heap\<close>

text \<open>
  A \<^verbatim>\<open>[]string\<close> is a header (backing array, length, capacity); copying a struct copies
  the header and shares the array.  \<^verbatim>\<open>append\<close> writes into the shared array when there is
  spare capacity and allocates a new one otherwise.  The slices of this program come from
  the JSON decoder or from composite literals, so they start at index 0 of their array.
  The capacity of a newly grown array is chosen by the runtime; \<open>grow\<close> stands for
  that policy and \<open>append\<close> never allocates less than it needs.
\<close>

record slice =
  arr :: nat
  len :: nat
  cap :: nat

datatype mount_type = TypeBind | TypeVolume | TypeTmpfs | TypeNamedPipe | TypeCluster

record Mount =
  Type :: mount_type
  Source :: string
  Target :: string

text \<open>
  \<^verbatim>\<open>container.Config\<close>, with the fields main.go assigns or the claims name.  The type
  parameter is the representation of \<^verbatim>\<open>[]string\<close>: \<open>slice\<close> for the struct in memory,
  \<open>string list\<close> for the value a reader of the struct sees.
\<close>

record 's Config =
  Image :: string
  WorkingDir :: string
  Cmd :: 's
  Entrypoint :: 's
  Env :: 's
  AttachStdin :: bool
  AttachStdout :: bool
  AttachStderr :: bool
  Tty :: bool
  OpenStdin :: bool
  StdinOnce :: bool

text \<open>
  \<^verbatim>\<open>container.HostConfig\<close>.  A \<^verbatim>\<open>[]mount.Mount\<close> is only ever built by a composite
  literal here and never written in place, so it is kept as a list.
\<close>

record HostConfig =
  NetworkMode :: string
  Mounts :: "Mount list"

type_synonym networks = "(string \<times> string) list"

record NetworkingConfig =
  EndpointsConfig :: networks

text \<open>
  \<^verbatim>\<open>types.ContainerJSON\<close>: \<open>ConfigP\<close> and \<open>HostConfigP\<close> are the pointers
  \<^verbatim>\<open>containerJSON.Config\<close> and \<^verbatim>\<open>containerJSON.HostConfig\<close>, \<open>Networks\<close> is
  \<^verbatim>\<open>containerJSON.NetworkSettings.Networks\<close>.
\<close>

record ContainerJSON =
  Name :: string
  ConfigP :: nat
  HostConfigP :: nat
  Networks :: networks

record go_heap =
  arrays :: "nat \<Rightarrow> string list"
  configs :: "nat \<Rightarrow> slice Config"
  hostConfigs :: "nat \<Rightarrow> HostConfig"
  nextAddr :: nat
  grow :: "nat \<Rightarrow> nat"

definition elems :: "go_heap \<Rightarrow> slice \<Rightarrow> string list" where
  "elems h s = take (len s) (arrays h (arr s))"

text \<open>A composite literal \<^verbatim>\<open>[]string{...}\<close>: a fresh array holding exactly the elements.\<close>

definition literal :: "go_heap \<Rightarrow> string list \<Rightarrow> go_heap \<times> slice" where
  "literal h xs =
     (h\<lparr>arrays := (arrays h)(nextAddr h := xs), nextAddr := Suc (nextAddr h)\<rparr>,
      \<lparr>arr = nextAddr h, len = length xs, cap = length xs\<rparr>)"

definition append :: "go_heap \<Rightarrow> slice \<Rightarrow> string \<Rightarrow> go_heap \<times> slice" where
  "append h s v =
     (if len s < cap s
      then (h\<lparr>arrays := (arrays h)(arr s := (arrays h (arr s))[len s := v])\<rparr>,
            s\<lparr>len := Suc (len s)\<rparr>)
      else
        (let c = max (Suc (len s)) (grow h (cap s))
         in (h\<lparr>arrays := (arrays h)(nextAddr h :=
                    elems h s @ [v] @ replicate (c - Suc (len s)) ''''),
                nextAddr := Suc (nextAddr h)\<rparr>,
             \<lparr>arr = nextAddr h, len = Suc (len s), cap = c\<rparr>)))"

text \<open>What a reader of the struct at address \<open>p\<close> sees.\<close>

definition readConfig :: "go_heap \<Rightarrow> nat \<Rightarrow> string list Config" where
  "readConfig h p =
     (let c = configs h p
      in \<lparr>Image = Image c, WorkingDir = WorkingDir c,
          Cmd = elems h (Cmd c), Entrypoint = elems h (Entrypoint c), Env = elems h (Env c),
          AttachStdin = AttachStdin c, AttachStdout = AttachStdout c,
          AttachStderr = AttachStderr c, Tty = Tty c, OpenStdin = OpenStdin c,
          StdinOnce = StdinOnce c\<rparr>)"

section \<open>devContainerConfiguration (main.go:164)\<close>

text \<open>
  The loop of lines 173--179: \<^verbatim>\<open>env[:4]\<close> panics on an entry shorter than four bytes;
  the first entry whose first four bytes are \<^verbatim>\<open>PATH\<close> ends the loop; without one,
  \<^verbatim>\<open>path\<close> keeps its initial value \<^verbatim>\<open>""\<close>.
\<close>

fun findPATH :: "string list \<Rightarrow> go_panic + string" where
  "findPATH [] = Inr ''''"
| "findPATH (env # rest) =
     (case sliceStr env 0 4 of
        Inl p \<Rightarrow> Inl p
      | Inr pre \<Rightarrow> if pre = ''PATH'' then Inr env else findPATH rest)"

text \<open>
  The function takes the heap and the value of \<^verbatim>\<open>os.Getenv("HOME")\<close>, and returns the
  heap with the two new structs, their addresses and the networking configuration, or the
  panic of the loop.  \<^verbatim>\<open>config := *containerJSON.Config\<close> copies the struct, so the
  assignments below change the copy; the slice headers in it still point at the arrays
  of the original.
\<close>

definition devContainerConfiguration ::
  "go_heap \<Rightarrow> string \<Rightarrow> ContainerJSON \<Rightarrow> string \<Rightarrow> string \<Rightarrow> string
     \<Rightarrow> go_panic + (go_heap \<times> nat \<times> nat \<times> NetworkingConfig)" where
  "devContainerConfiguration h home containerJSON newImage sourcePath targetPath =
     (let config0 = configs h (ConfigP containerJSON);
          (h1, cmd) = literal h [];
          (h2, entry) = literal h1 [''/bin/sh''];
          config1 = config0\<lparr>Image := newImage, WorkingDir := targetPath,
                           Cmd := cmd, Entrypoint := entry\<rparr>
      in case findPATH (elems h2 (Env config1)) of
           Inl p \<Rightarrow> Inl p
         | Inr found \<Rightarrow>
            (let path = found @ '':/go/bin:/usr/local/go/bin'';
                 (h3, env1) = append h2 (Env config1) path;
                 (h4, env2) = append h3 env1 ''DEV_CONTAINER=true'';
                 config2 = config1\<lparr>Env := env2, AttachStdin := True, AttachStdout := True,
                                  AttachStderr := True, Tty := True, OpenStdin := True,
                                  StdinOnce := True\<rparr>;
                 hostConfig = (hostConfigs h4 (HostConfigP containerJSON))
                                \<lparr>Mounts :=
                                   [\<lparr>Type = TypeBind, Source = sourcePath, Target = targetPath\<rparr>,
                                    \<lparr>Type = TypeBind, Source = home @ ''/.ssh'',
                                     Target = ''/root/.ssh''\<rparr>,
                                    \<lparr>Type = TypeBind, Source = home @ ''/.gitconfig'',
                                     Target = ''/root/.gitconfig''\<rparr>,
                                    \<lparr>Type = TypeBind, Source = home @ ''/go/pkg'',
                                     Target = ''/go/pkg''\<rparr>]\<rparr>;
                 networkingConfig = \<lparr>EndpointsConfig = Networks containerJSON\<rparr>;
                 cp = nextAddr h4;
                 hp = Suc cp
             in Inr (h4\<lparr>configs := (configs h4)(cp := config2),
                        hostConfigs := (hostConfigs h4)(hp := hostConfig),
                        nextAddr := Suc hp\<rparr>,
                     cp, hp, networkingConfig)))"

section \<open>The world outside the process\<close>

text \<open>
  The container runtime, the file system, git and the scheduler are outside the program.
  A run is determined by the flags and by what each external call answers; the answers
  are the fields of \<open>world\<close>, one per call site, and the calls the program makes are
  recorded in order as a trace of \<open>op\<close>s.  Output is recorded with its format string
  (without the final newline) and arguments.
\<close>

record ContainerSummary =
  ID :: string
  Names :: "string list"

datatype wait_result = WaitStatus int | WaitError go_error

datatype op =
    Stat string
  | RemoveAll string
  | Exec string "string list"
  | NewClient
  | ContainerList bool
  | ContainerInspect string
  | ContainerStop string int
  | ContainerWait string
  | ContainerRemove string
  | ContainerCreate "string list Config" HostConfig NetworkingConfig string
  | ContainerStart string
  | SignalNotify
  | SpawnAttach string
  | SpawnWait string
  | Output string "fmt_arg list"

text \<open>
  \<open>Stat\<close>, \<open>RemoveAll\<close>: \<^verbatim>\<open>os.Stat\<close>, \<^verbatim>\<open>os.RemoveAll\<close> on a path.  \<open>Exec\<close>: a command
  run to its end.  \<open>ContainerList\<close> carries the option \<^verbatim>\<open>All\<close>, \<open>ContainerStop\<close> the
  timeout.  \<open>ContainerCreate\<close> carries what the runtime reads through the two pointers at
  the time of the call, the network configuration and the name.  \<open>SpawnAttach\<close> and
  \<open>SpawnWait\<close> are the \<^verbatim>\<open>go\<close> statements of lines 117 and 280, with the container they
  watch.
\<close>

text \<open>
  The sources of the termination event (main.go:117--124, 275--276, 280--285) act in an
  order the scheduler chooses.  \<open>Interrupt\<close>: the operating system delivers SIGINT and
  \<^verbatim>\<open>signal.Notify\<close> relays it.  \<open>DevWaitReturns\<close>: the wait of the second goroutine
  returns.  \<open>AttachReturns\<close>: \<^verbatim>\<open>cmd.Run()\<close> of the attach goroutine returns.
  \<open>MainReceives\<close>: the main goroutine is scheduled at its \<^verbatim>\<open><-sigCh\<close>.
\<close>

datatype signal = SIGINT

datatype fire =
    Interrupt
  | DevWaitReturns wait_result
  | AttachReturns "go_error option"
  | MainReceives

record world =
  home :: string
  statTarget :: bool
  gitClone :: "go_error option"
  newClient :: "go_error option"
  containerList :: "go_error + ContainerSummary list"
  inspectOriginal :: "go_error + (go_heap \<times> ContainerJSON)"
  stopOriginal :: "go_error option"
  waitOriginal :: wait_result
  removeOriginal :: "go_error option"
  createDev :: "go_error + string"
  startDev :: "go_error option"
  schedule :: "fire list"
  killPoint :: nat
  inspectDev :: "go_error + bool"
  stopDev :: "go_error option"
  waitDev :: wait_result
  removeDev :: "go_error option"
  createOriginal :: "go_error + string"
  startOriginal :: "go_error option"

text \<open>
  \<open>statTarget\<close>: \<^verbatim>\<open>os.Stat\<close> of the clone target returned no error.  \<open>inspectOriginal\<close>:
  the decoded inspect response and the heap it lives in.  \<open>schedule\<close>: the order in which
  the sources act.  \<open>killPoint\<close>: how far the main goroutine gets when a goroutine ends the
  process under it (see \<open>cutShort\<close>).  The other fields are the results of the calls they
  are named after, for the original and for the development container.

  A part of the program yields the calls it made and either the way the process ended
  inside it or its return value.
\<close>

type_synonym 'a proc = "op list \<times> (exit_status + 'a)"

definition returns :: "'a \<Rightarrow> 'a proc" where
  "returns x = ([], Inr x)"

definition andThen :: "'a proc \<Rightarrow> ('a \<Rightarrow> 'b proc) \<Rightarrow> 'b proc" where
  "andThen m f =
     (case m of
        (t, Inl e) \<Rightarrow> (t, Inl e)
      | (t, Inr x) \<Rightarrow> (case f x of (t', r) \<Rightarrow> (t @ t', r)))"

definition fatalf :: "string \<Rightarrow> fmt_arg list \<Rightarrow> 'a proc" where
  "fatalf msg args = ([], Inl (Fatal msg args))"

text \<open>The recurring \<^verbatim>\<open>if err != nil { log.Fatalf(msg, err) }\<close> after a call.\<close>

definition orFatal :: "op \<Rightarrow> go_error + 'a \<Rightarrow> string \<Rightarrow> 'a proc" where
  "orFatal c r msg =
     ([c], case r of Inl err \<Rightarrow> Inl (Fatal msg [ArgErr err]) | Inr x \<Rightarrow> Inr x)"

definition outcome :: "go_error option \<Rightarrow> go_error + unit" where
  "outcome e = (case e of None \<Rightarrow> Inr () | Some err \<Rightarrow> Inl err)"

definition finish :: "'a proc \<Rightarrow> op list \<times> exit_status" where
  "finish m = (case m of (t, Inl e) \<Rightarrow> (t, e) | (t, Inr x) \<Rightarrow> (t, ExitOK))"

section \<open>The functions of main.go\<close>

subsection \<open>getContainerIDByName (main.go:23)\<close>

fun matchNames :: "string list \<Rightarrow> string \<Rightarrow> bool" where
  "matchNames [] containerName = False"
| "matchNames (name # rest) containerName =
     (if name = ''/'' @ containerName then True else matchNames rest containerName)"

fun searchContainers :: "ContainerSummary list \<Rightarrow> string \<Rightarrow> string option" where
  "searchContainers [] containerName = None"
| "searchContainers (c # rest) containerName =
     (if matchNames (Names c) containerName then Some (ID c)
      else searchContainers rest containerName)"

definition getContainerIDByName :: "world \<Rightarrow> string \<Rightarrow> (go_error + string) proc" where
  "getContainerIDByName w containerName =
     ([ContainerList True],
      Inr (case containerList w of
             Inl err \<Rightarrow> Inl err
           | Inr containers \<Rightarrow>
              (case searchContainers containers containerName of
                 Some cid \<Rightarrow> Inr cid
               | None \<Rightarrow> Inl (''container with name '' @ containerName @ '' not found''))))"

subsection \<open>waitForContainerStop (main.go:40)\<close>

definition waitForContainerStop :: "wait_result \<Rightarrow> string \<Rightarrow> unit proc" where
  "waitForContainerStop r containerID =
     ([ContainerWait containerID,
       (case r of
          WaitStatus code \<Rightarrow>
            if code = 0 then Output ''Container stopped'' []
            else Output ''Container stopped with status code: %d'' [ArgInt code]
        | WaitError err \<Rightarrow> Output ''Error waiting for container to stop: %v'' [ArgErr err])],
      Inr ())"

subsection \<open>recreateOriginalContainer (main.go:55)\<close>

definition recreateOriginalContainer ::
  "world \<Rightarrow> go_heap \<Rightarrow> ContainerJSON \<Rightarrow> NetworkingConfig \<Rightarrow> unit proc" where
  "recreateOriginalContainer w h containerJSON networkingConfig =
     andThen (orFatal (ContainerCreate (readConfig h (ConfigP containerJSON))
                         (hostConfigs h (HostConfigP containerJSON))
                         networkingConfig (Name containerJSON))
                (createOriginal w) ''Error creating container: %v'') (\<lambda>respID.
     andThen (orFatal (ContainerStart respID) (outcome (startOriginal w))
                ''Error starting container: %v'') (\<lambda>_.
     ([Output ''Original container %s started successfully'' [ArgStr (Name containerJSON)]],
      Inr ())))"

subsection \<open>cleanupDevContainer (main.go:69)\<close>

text \<open>
  The result of \<^verbatim>\<open>cli.ContainerStop\<close> on line 77 is discarded, so \<open>stopDev w\<close> is
  not consulted.
\<close>

definition cleanupDevContainer :: "world \<Rightarrow> string \<Rightarrow> unit proc" where
  "cleanupDevContainer w respID =
     (case inspectDev w of
        Inl err \<Rightarrow> ([ContainerInspect respID], Inl (Panicked (PanicError err)))
      | Inr running \<Rightarrow>
         andThen ([ContainerInspect respID], Inr ()) (\<lambda>_.
         andThen (if running
                  then andThen ([ContainerStop respID 0], Inr ()) (\<lambda>_.
                       waitForContainerStop (waitDev w) respID)
                  else returns ()) (\<lambda>_.
         andThen (orFatal (ContainerRemove respID) (outcome (removeDev w))
                    ''Error removing container: %v'') (\<lambda>_.
         ([Output ''Container removed successfully'' []], Inr ())))))"

subsection \<open>removeOriginalContainer (main.go:88)\<close>

definition removeOriginalContainer :: "world \<Rightarrow> string \<Rightarrow> unit proc" where
  "removeOriginalContainer w containerID =
     andThen ([Output ''Stopping original container'' []], Inr ()) (\<lambda>_.
     andThen (orFatal (ContainerStop containerID 0) (outcome (stopOriginal w))
                ''Error stopping container: %v'') (\<lambda>_.
     andThen (waitForContainerStop (waitOriginal w) containerID) (\<lambda>_.
     orFatal (ContainerRemove containerID) (outcome (removeOriginal w))
       ''Error removing container: %v'')))"

subsection \<open>startDevContainer (main.go:104)\<close>

text \<open>
  The goroutine of lines 117--124 is started here (\<open>SpawnAttach\<close>); what it does when
  \<^verbatim>\<open>cmd.Run()\<close> returns is \<open>attachWatcher\<close> below.  The function returns \<^verbatim>\<open>resp.ID\<close>.
\<close>

definition startDevContainer ::
  "world \<Rightarrow> go_heap \<Rightarrow> nat \<Rightarrow> nat \<Rightarrow> NetworkingConfig \<Rightarrow> string \<Rightarrow> string proc" where
  "startDevContainer w h config hostConfig networkingConfig name =
     andThen (orFatal (ContainerCreate (readConfig h config) (hostConfigs h hostConfig)
                         networkingConfig name)
                (createDev w) ''Error creating container: %v'') (\<lambda>respID.
     andThen ([SpawnAttach respID,
               Output ''Quit the container to restore the original one'' []], Inr ()) (\<lambda>_.
     andThen (orFatal (ContainerStart respID) (outcome (startDev w))
                ''Error starting container: %v'') (\<lambda>_.
     returns respID)))"

subsection \<open>cloneRemoteRepo (main.go:136)\<close>

definition cloneRemoteRepo :: "world \<Rightarrow> string \<Rightarrow> string \<Rightarrow> string proc" where
  "cloneRemoteRepo w remote branch =
     (let repoURL = remote
      in case sliceStr repoURL (LastIndex repoURL CHR ''/'' + 1) (LastIndex repoURL CHR ''.'') of
           Inl p \<Rightarrow> ([], Inl (Panicked p))
         | Inr repoName \<Rightarrow>
            (let targetDir = ''/tmp'' @ ''/'' @ repoName;
                 cloneArgs = [''clone'', repoURL, targetDir] @
                             (if branch \<noteq> '''' then [''-b'', branch, ''--single-branch'']
                              else [])
             in andThen ([Stat targetDir] @ (if statTarget w then [RemoveAll targetDir] else []),
                         Inr ()) (\<lambda>_.
                andThen (orFatal (Exec ''git'' cloneArgs) (outcome (gitClone w))
                           ''Failed to clone repository: %v'') (\<lambda>_.
                returns targetDir))))"

subsection \<open>The termination channel (main.go:275--287)\<close>

text \<open>
  \<^verbatim>\<open>sigCh := make(chan os.Signal, 1)\<close>: \<open>buf\<close> is the buffer, \<open>sendq\<close> the values
  of goroutines parked in a send on the full channel, \<open>observed\<close> what the main
  goroutine has received, \<open>killed\<close> the exit of the process by a goroutine, \<open>clog\<close>
  the calls and output of the goroutines.
\<close>

record coord =
  buf :: "signal list"
  sendq :: "signal list"
  observed :: "signal list"
  killed :: "exit_status option"
  clog :: "op list"

definition chanCap :: nat where
  "chanCap = 1"

definition coord0 :: coord where
  "coord0 = \<lparr>buf = [], sendq = [], observed = [], killed = None, clog = []\<rparr>"

text \<open>\<^verbatim>\<open>signal.Notify\<close> relays without blocking: a signal that finds the buffer full is dropped.\<close>

definition notify :: "signal \<Rightarrow> coord \<Rightarrow> coord" where
  "notify v s = (if length (buf s) < chanCap then s\<lparr>buf := buf s @ [v]\<rparr> else s)"

text \<open>\<^verbatim>\<open>sigCh <- os.Interrupt\<close> in a goroutine: it parks when the buffer is full.\<close>

definition send :: "signal \<Rightarrow> coord \<Rightarrow> coord" where
  "send v s =
     (if length (buf s) < chanCap then s\<lparr>buf := buf s @ [v]\<rparr>
      else s\<lparr>sendq := sendq s @ [v]\<rparr>)"

text \<open>
  \<^verbatim>\<open><-sigCh\<close>: on an empty buffer the receiver stays blocked; otherwise it takes the
  oldest value and the first parked sender, if any, completes its send.
\<close>

definition receive :: "coord \<Rightarrow> coord" where
  "receive s =
     (case buf s of
        [] \<Rightarrow> s
      | v # rest \<Rightarrow>
         s\<lparr>observed := observed s @ [v],
           buf := rest @ take 1 (sendq s),
           sendq := drop 1 (sendq s)\<rparr>)"

text \<open>The goroutine of main.go:117--124, from the return of \<^verbatim>\<open>cmd.Run()\<close>.\<close>

definition attachWatcher :: "go_error option \<Rightarrow> coord \<Rightarrow> coord" where
  "attachWatcher err s =
     (case err of
        Some e \<Rightarrow> s\<lparr>killed := Some (Fatal ''Error attaching to container: %v'' [ArgErr e])\<rparr>
      | None \<Rightarrow> send SIGINT s)"

text \<open>The goroutine of main.go:280--285, from the return of the wait.\<close>

definition waitWatcher :: "string \<Rightarrow> wait_result \<Rightarrow> coord \<Rightarrow> coord" where
  "waitWatcher respID r s =
     send SIGINT
       (s\<lparr>clog := clog s @ fst (waitForContainerStop r respID) @
                     [Output ''Container has exited'' []]\<rparr>)"

text \<open>
  One action of the scheduler.  Nothing happens in a process that has exited.  The main
  goroutine executes its single receive statement once: after it has a value it never
  receives again.
\<close>

definition step :: "string \<Rightarrow> coord \<Rightarrow> fire \<Rightarrow> coord" where
  "step respID s e =
     (if killed s \<noteq> None then s
      else case e of
             Interrupt \<Rightarrow> notify SIGINT s
           | DevWaitReturns r \<Rightarrow> waitWatcher respID r s
           | AttachReturns err \<Rightarrow> attachWatcher err s
           | MainReceives \<Rightarrow> if observed s = [] then receive s else s)"

definition coordinate :: "string \<Rightarrow> fire list \<Rightarrow> coord" where
  "coordinate respID es = foldl (step respID) coord0 es"

text \<open>
  A goroutine that calls \<^verbatim>\<open>log.Fatalf\<close> after the main goroutine has received ends the
  process while the main goroutine is at work: of the calls \<open>t\<close> the main goroutine
  would make, the first \<open>n\<close> are made.
\<close>

definition cutShort :: "exit_status option \<Rightarrow> nat \<Rightarrow> 'a proc \<Rightarrow> 'a proc" where
  "cutShort k n m =
     (case k of
        None \<Rightarrow> m
      | Some e \<Rightarrow> if n < length (fst m) then (take n (fst m), Inl e) else m)"

subsection \<open>main (main.go:232)\<close>

text \<open>The flags after \<^verbatim>\<open>flag.Parse()\<close>, defaults applied.\<close>

record args =
  containerName :: string
  sourcePath :: string
  targetPath :: string
  newImage :: string
  remote :: string
  branch :: string

text \<open>
  \<^verbatim>\<open>main\<close> is written in three parts: lines 287--292 (\<open>awaitAndRestore\<close>), lines
  268--285 (\<open>swapContainers\<close>) and lines 233--266 (\<open>main\<close>), each ending in a call of the
  part that follows it in the source.

  Lines 287--292.  The schedule is consumed at the receive of line 287, where the main
  goroutine is eventually scheduled; when no value has arrived by then it stays blocked,
  unless a goroutine has ended the process.  What the goroutines do between their start
  and line 287 is accounted for at the receive: their calls and output stand there in the
  trace, and a failure of the attach process in that interval ends the run there.
\<close>

definition received :: op where
  "received = Output ''Interrupt signal received, stopping container...'' []"

definition awaitAndRestore ::
  "world \<Rightarrow> string \<Rightarrow> go_heap \<Rightarrow> ContainerJSON \<Rightarrow> NetworkingConfig \<Rightarrow> unit proc" where
  "awaitAndRestore w respID h containerJSON networkingConfig =
     (let s = step respID (coordinate respID (schedule w)) MainReceives
      in if observed s = []
         then (clog s, Inl (case killed s of Some e \<Rightarrow> e | None \<Rightarrow> BlockedForever))
         else
           andThen (clog s @ [received], Inr ()) (\<lambda>_.
           cutShort (killed s) (killPoint w)
             (andThen (cleanupDevContainer w respID) (\<lambda>_.
              recreateOriginalContainer w h containerJSON networkingConfig))))"

text \<open>Lines 268--285.\<close>

definition swapContainers ::
  "world \<Rightarrow> args \<Rightarrow> go_heap \<Rightarrow> ContainerJSON \<Rightarrow> string \<Rightarrow> string \<Rightarrow> unit proc" where
  "swapContainers w a h containerJSON containerID source =
     andThen (removeOriginalContainer w containerID) (\<lambda>_.
     (let name = Name containerJSON @ ''-dev''
      in case devContainerConfiguration h (home w) containerJSON (newImage a) source
                (targetPath a) of
           Inl p \<Rightarrow> ([], Inl (Panicked p))
         | Inr (h', config, hostConfig, networkingConfig) \<Rightarrow>
            andThen ([SignalNotify], Inr ()) (\<lambda>_.
            andThen (startDevContainer w h' config hostConfig networkingConfig name) (\<lambda>respID.
            andThen ([SpawnWait respID], Inr ()) (\<lambda>_.
            awaitAndRestore w respID h' containerJSON networkingConfig)))))"

text \<open>Lines 233--266.\<close>

definition main :: "args \<Rightarrow> world \<Rightarrow> op list \<times> exit_status" where
  "main a w =
     finish
       (andThen (if remote a \<noteq> '''' then cloneRemoteRepo w (remote a) (branch a)
                 else returns (sourcePath a)) (\<lambda>source.
        andThen (if containerName a = '''' then fatalf ''Argument for -name is required'' []
                 else returns ()) (\<lambda>_.
        andThen (orFatal NewClient (outcome (newClient w))
                   ''Error creating Docker client: %v'') (\<lambda>_.
        andThen (getContainerIDByName w (containerName a)) (\<lambda>r.
        (case r of
           Inl err \<Rightarrow>
             fatalf ''Error getting Docker container's id by name: %v'' [ArgErr err]
         | Inr containerID \<Rightarrow>
             andThen (orFatal (ContainerInspect containerID) (inspectOriginal w)
                        ''Error inspecting container: %v'') (\<lambda>(h, containerJSON).
             swapContainers w a h containerJSON containerID source)))))))"

section \<open>Observations and well-formedness\<close>

text \<open>What the caller of \<open>devContainerConfiguration\<close> sees through the returned pointers.\<close>

definition derived ::
  "go_heap \<Rightarrow> string \<Rightarrow> ContainerJSON \<Rightarrow> string \<Rightarrow> string \<Rightarrow> string
     \<Rightarrow> go_panic + (string list Config \<times> HostConfig \<times> NetworkingConfig)" where
  "derived h homeDir containerJSON img src tgt =
     (case devContainerConfiguration h homeDir containerJSON img src tgt of
        Inl p \<Rightarrow> Inl p
      | Inr (h', config, hostConfig, networkingConfig) \<Rightarrow>
          Inr (readConfig h' config, hostConfigs h' hostConfig, networkingConfig))"

definition derivedEnv ::
  "go_heap \<Rightarrow> string \<Rightarrow> ContainerJSON \<Rightarrow> string \<Rightarrow> string \<Rightarrow> string
     \<Rightarrow> go_panic + string list" where
  "derivedEnv h homeDir containerJSON img src tgt =
     (case derived h homeDir containerJSON img src tgt of
        Inl p \<Rightarrow> Inl p
      | Inr (config, hostConfig, networkingConfig) \<Rightarrow> Inr (Env config))"

text \<open>The environment list of the snapshot, as the deriver finds it.\<close>

definition snapshotEnv :: "go_heap \<Rightarrow> ContainerJSON \<Rightarrow> string list" where
  "snapshotEnv h containerJSON = elems h (Env (configs h (ConfigP containerJSON)))"

text \<open>The variable name of an entry \<^verbatim>\<open>NAME=value\<close>.\<close>

definition envName :: "string \<Rightarrow> string" where
  "envName e = takeWhile (\<lambda>c. c \<noteq> CHR ''='') e"

text \<open>
  A slice of the heap: its array is allocated and at least as long as the capacity, which
  is at least the length.
\<close>

definition validSlice :: "go_heap \<Rightarrow> slice \<Rightarrow> bool" where
  "validSlice h s =
     (arr s < nextAddr h \<and> len s \<le> cap s \<and> cap s \<le> length (arrays h (arr s)))"

text \<open>
  Slice \<open>s\<close> does not see the spare capacity of slice \<open>e\<close>: another array, or the same
  array and no longer than \<open>e\<close>.
\<close>

definition apart :: "slice \<Rightarrow> slice \<Rightarrow> bool" where
  "apart e s = (arr s \<noteq> arr e \<or> len s \<le> len e)"

text \<open>
  A snapshot as the decoder of the inspect response leaves it: the two structs and the
  arrays are allocated, and the command and entrypoint do not lie in the spare capacity
  of the environment list.
\<close>

definition snapshotOK :: "go_heap \<Rightarrow> ContainerJSON \<Rightarrow> bool" where
  "snapshotOK h containerJSON =
     (let c = configs h (ConfigP containerJSON)
      in ConfigP containerJSON < nextAddr h \<and> HostConfigP containerJSON < nextAddr h \<and>
         arr (Env c) < nextAddr h \<and> arr (Cmd c) < nextAddr h \<and>
         arr (Entrypoint c) < nextAddr h \<and>
         apart (Env c) (Cmd c) \<and> apart (Env c) (Entrypoint c))"

text \<open>Calls that stop, remove, create or start a container.\<close>

fun touchesContainer :: "op \<Rightarrow> bool" where
  "touchesContainer (ContainerStop cid t) = True"
| "touchesContainer (ContainerRemove cid) = True"
| "touchesContainer (ContainerCreate c hc nc n) = True"
| "touchesContainer (ContainerStart cid) = True"
| "touchesContainer other = False"

text \<open>Calls on a container that belong to a teardown or a recreation.\<close>

fun teardownOp :: "op \<Rightarrow> bool" where
  "teardownOp (ContainerInspect cid) = True"
| "teardownOp (ContainerStop cid t) = True"
| "teardownOp (ContainerRemove cid) = True"
| "teardownOp (ContainerCreate c hc nc n) = True"
| "teardownOp (ContainerStart cid) = True"
| "teardownOp other = False"

fun createsNamed :: "string \<Rightarrow> op \<Rightarrow> bool" where
  "createsNamed n (ContainerCreate c hc nc m) = (m = n)"
| "createsNamed n other = False"

fun isSpawnWait :: "op \<Rightarrow> bool" where
  "isSpawnWait (SpawnWait cid) = True"
| "isSpawnWait other = False"

text \<open>Scheduler actions that put a value on the channel, and the failure of the attach.\<close>

fun fires :: "fire \<Rightarrow> bool" where
  "fires Interrupt = True"
| "fires (DevWaitReturns r) = True"
| "fires (AttachReturns None) = True"
| "fires (AttachReturns (Some err)) = False"
| "fires MainReceives = False"

fun attachFailed :: "fire \<Rightarrow> bool" where
  "attachFailed (AttachReturns (Some err)) = True"
| "attachFailed other = False"

text \<open>
  Calls that only the part of \<^verbatim>\<open>main\<close> from line 280 on makes, for an original named
  \<open>n\<close>: the start of the wait goroutine, the message after the receive, and the creation
  of a container under the original name.
\<close>

definition sessionOp :: "string \<Rightarrow> op \<Rightarrow> bool" where
  "sessionOp n c = (isSpawnWait c \<or> createsNamed n c \<or> c = received)"

text \<open>Calls made up to and including the snapshot.\<close>

fun setupOp :: "op \<Rightarrow> bool" where
  "setupOp (Stat d) = True"
| "setupOp (RemoveAll d) = True"
| "setupOp (Exec c as) = True"
| "setupOp NewClient = True"
| "setupOp (ContainerList b) = True"
| "setupOp (ContainerInspect cid) = True"
| "setupOp other = False"

text \<open>A value is in the buffer or has been received.\<close>

definition pending :: "coord \<Rightarrow> bool" where
  "pending s = (buf s \<noteq> [] \<or> observed s \<noteq> [])"

definition nonZeroExit :: "exit_status \<Rightarrow> bool" where
  "nonZeroExit e = (case e of Fatal msg args \<Rightarrow> True | Panicked p \<Rightarrow> True | _ \<Rightarrow> False)"

section \<open>A concrete run\<close>

text \<open>
  A container \<^verbatim>\<open>api\<close> whose environment list was decoded into an array with spare
  capacity, next to a container \<^verbatim>\<open>db\<close>.
\<close>

definition exConfig :: "slice Config" where
  "exConfig =
     \<lparr>Image = ''api:1.0'', WorkingDir = ''/srv'',
      Cmd = \<lparr>arr = 1, len = 1, cap = 1\<rparr>, Entrypoint = \<lparr>arr = 2, len = 1, cap = 1\<rparr>,
      Env = \<lparr>arr = 0, len = 2, cap = 4\<rparr>,
      AttachStdin = False, AttachStdout = False, AttachStderr = False, Tty = False,
      OpenStdin = False, StdinOnce = False\<rparr>"

definition exHeap :: go_heap where
  "exHeap =
     \<lparr>arrays = (\<lambda>a. [])(0 := [''PATH=/usr/bin'', ''MODE=prod'', '''', ''''],
                         1 := [''serve''], 2 := [''/bin/api'']),
      configs = (\<lambda>a. exConfig),
      hostConfigs = (\<lambda>a. \<lparr>NetworkMode = ''bridge'',
                           Mounts = [\<lparr>Type = TypeVolume, Source = ''data'',
                                      Target = ''/data''\<rparr>]\<rparr>),
      nextAddr = 5, grow = (\<lambda>c. 2 * c)\<rparr>"

definition exHeapNoPath :: go_heap where
  "exHeapNoPath =
     exHeap\<lparr>arrays := (arrays exHeap)(0 := [''HOME=/root'', ''MODE=prod'', '''', ''''])\<rparr>"

definition exHeapShort :: go_heap where
  "exHeapShort =
     exHeap\<lparr>arrays := (arrays exHeap)(0 := [''A=1'', ''MODE=prod'', '''', ''''])\<rparr>"

definition exSnapshot :: ContainerJSON where
  "exSnapshot =
     \<lparr>Name = ''/api'', ConfigP = 3, HostConfigP = 4, Networks = [(''backend'', ''ep1'')]\<rparr>"

definition exWorld :: world where
  "exWorld =
     \<lparr>home = ''/home/dev'', statTarget = True, gitClone = None, newClient = None,
      containerList = Inr [\<lparr>ID = ''db01'', Names = [''/db'']\<rparr>,
                           \<lparr>ID = ''c0ffee'', Names = [''/api'']\<rparr>],
      inspectOriginal = Inr (exHeap, exSnapshot),
      stopOriginal = None, waitOriginal = WaitStatus 0, removeOriginal = None,
      createDev = Inr ''dev01'', startDev = None,
      schedule = [Interrupt, MainReceives], killPoint = 0,
      inspectDev = Inr True, stopDev = None, waitDev = WaitStatus 137, removeDev = None,
      createOriginal = Inr ''c0ffee2'', startOriginal = None\<rparr>"

definition exArgs :: args where
  "exArgs =
     \<lparr>containerName = ''api'', sourcePath = ''/tmp/x'', targetPath = ''/app'',
      newImage = ''docker-dev-golang:latest'', remote = '''', branch = ''master''\<rparr>"

text \<open>The development configuration derived from it.\<close>

definition exDevConfig :: "string list Config" where
  "exDevConfig =
     \<lparr>Image = ''docker-dev-golang:latest'', WorkingDir = ''/app'', Cmd = [],
      Entrypoint = [''/bin/sh''],
      Env = [''PATH=/usr/bin'', ''MODE=prod'', ''PATH=/usr/bin:/go/bin:/usr/local/go/bin'',
             ''DEV_CONTAINER=true''],
      AttachStdin = True, AttachStdout = True, AttachStderr = True, Tty = True,
      OpenStdin = True, StdinOnce = True\<rparr>"

definition exDevHostConfig :: HostConfig where
  "exDevHostConfig =
     \<lparr>NetworkMode = ''bridge'',
      Mounts = [\<lparr>Type = TypeBind, Source = ''/tmp/x'', Target = ''/app''\<rparr>,
                \<lparr>Type = TypeBind, Source = ''/home/dev/.ssh'', Target = ''/root/.ssh''\<rparr>,
                \<lparr>Type = TypeBind, Source = ''/home/dev/.gitconfig'',
                 Target = ''/root/.gitconfig''\<rparr>,
                \<lparr>Type = TypeBind, Source = ''/home/dev/go/pkg'', Target = ''/go/pkg''\<rparr>]\<rparr>"

text \<open>An invocation with \<^verbatim>\<open>-remote\<close> and \<^verbatim>\<open>-branch\<close> but without \<^verbatim>\<open>-name\<close>.\<close>

definition exCloneArgs :: args where
  "exCloneArgs =
     exArgs\<lparr>containerName := '''', remote := ''git@host:org/repo.git'', branch := ''dev''\<rparr>"

text \<open>Variations of the run: the attach process exits or fails, the teardown fails.\<close>

definition exWorldAttachExits :: world where
  "exWorldAttachExits = exWorld\<lparr>schedule := [AttachReturns None]\<rparr>"

definition exWorldAttachFails :: world where
  "exWorldAttachFails = exWorld\<lparr>schedule := [AttachReturns (Some ''exit status 1'')]\<rparr>"







section \<open>The heap operations\<close>

lemma literal_elems_old: "arr s < nextAddr h \<Longrightarrow> elems (fst (literal h xs)) s = elems h s"
  by (simp add: literal_def elems_def)

lemma literal_fields:
  "nextAddr (fst (literal h xs)) = Suc (nextAddr h)"
  "configs (fst (literal h xs)) = configs h"
  "hostConfigs (fst (literal h xs)) = hostConfigs h"
  "arr (snd (literal h xs)) = nextAddr h"
  "elems (fst (literal h xs)) (snd (literal h xs)) = xs"
  by (simp_all add: literal_def elems_def)

lemma literal_valid: "validSlice h s \<Longrightarrow> validSlice (fst (literal h xs)) s"
  by (simp add: literal_def validSlice_def)

text \<open>
  An append to \<open>s\<close> leaves every allocated slice as it was, unless that slice shares the
  array of \<open>s\<close> and reaches into its spare capacity.
\<close>

lemma append_elems_old:
  "arr t < nextAddr h \<Longrightarrow> arr t \<noteq> arr s \<or> len t \<le> len s \<Longrightarrow>
   elems (fst (append h s v)) t = elems h t"
  by (auto simp add: append_def elems_def Let_def)

lemma append_fields:
  "nextAddr h \<le> nextAddr (fst (append h s v))"
  "configs (fst (append h s v)) = configs h"
  "hostConfigs (fst (append h s v)) = hostConfigs h"
  "len (snd (append h s v)) = Suc (len s)"
  by (simp_all add: append_def Let_def)

lemma append_result_arr:
  "arr (snd (append h s v)) = arr s \<or> arr (snd (append h s v)) = nextAddr h"
  by (simp add: append_def Let_def)

lemma append_valid: "validSlice h s \<Longrightarrow> validSlice (fst (append h s v)) (snd (append h s v))"
  by (auto simp add: append_def Let_def validSlice_def elems_def)

lemma take_Suc_update:
  "n < length xs \<Longrightarrow> take (Suc n) (xs[n := v]) = take n xs @ [v]"
  by (simp add: take_Suc_conv_app_nth)

lemma append_elems_new:
  "validSlice h s \<Longrightarrow> elems (fst (append h s v)) (snd (append h s v)) = elems h s @ [v]"
  by (auto simp add: append_def Let_def validSlice_def elems_def take_Suc_update)

section \<open>The deriver\<close>

lemma findPATH_ok:
  "\<forall>e\<in>set xs. 4 \<le> length e \<Longrightarrow>
   \<exists>p. findPATH xs = Inr p \<and> ((\<forall>e\<in>set xs. take 4 e \<noteq> ''PATH'') \<longrightarrow> p = '''')"
  by (induction xs) (auto simp: sliceStr_def)

text \<open>The function with its local bindings resolved.\<close>

lemma derive_unfold:
  "devContainerConfiguration h homeDir cj img src tgt =
     (let h1 = fst (literal h []); h2 = fst (literal h1 [''/bin/sh''])
      in case findPATH (elems h2 (Env (configs h (ConfigP cj)))) of
           Inl p \<Rightarrow> Inl p
         | Inr found \<Rightarrow>
            (let a1 = append h2 (Env (configs h (ConfigP cj)))
                        (found @ '':/go/bin:/usr/local/go/bin'');
                 a2 = append (fst a1) (snd a1) ''DEV_CONTAINER=true'';
                 h4 = fst a2
             in Inr (h4\<lparr>configs := (configs h4)(nextAddr h4 :=
                         (configs h (ConfigP cj))\<lparr>Image := img, WorkingDir := tgt,
                             Cmd := snd (literal h []),
                             Entrypoint := snd (literal h1 [''/bin/sh'']),
                             Env := snd a2, AttachStdin := True, AttachStdout := True,
                             AttachStderr := True, Tty := True, OpenStdin := True,
                             StdinOnce := True\<rparr>),
                        hostConfigs := (hostConfigs h4)(Suc (nextAddr h4) :=
                          (hostConfigs h (HostConfigP cj))\<lparr>Mounts :=
                             [\<lparr>Type = TypeBind, Source = src, Target = tgt\<rparr>,
                              \<lparr>Type = TypeBind, Source = homeDir @ ''/.ssh'',
                               Target = ''/root/.ssh''\<rparr>,
                              \<lparr>Type = TypeBind, Source = homeDir @ ''/.gitconfig'',
                               Target = ''/root/.gitconfig''\<rparr>,
                              \<lparr>Type = TypeBind, Source = homeDir @ ''/go/pkg'',
                               Target = ''/go/pkg''\<rparr>]\<rparr>),
                        nextAddr := Suc (Suc (nextAddr h4))\<rparr>,
                     nextAddr h4, Suc (nextAddr h4), \<lparr>EndpointsConfig = Networks cj\<rparr>)))"
  by (simp add: devContainerConfiguration_def Let_def split_beta literal_fields append_fields
           split: sum.splits)

lemma derivedEnv_eq:
  assumes v: "validSlice h (Env (configs h (ConfigP cj)))"
      and f: "findPATH (snapshotEnv h cj) = Inr p"
  shows "derivedEnv h homeDir cj img src tgt =
           Inr (snapshotEnv h cj @ [p @ '':/go/bin:/usr/local/go/bin'', ''DEV_CONTAINER=true''])"
proof -
  let ?e = "Env (configs h (ConfigP cj))"
  let ?h1 = "fst (literal h [])"
  let ?h2 = "fst (literal ?h1 [''/bin/sh''])"
  let ?a1 = "append ?h2 ?e (p @ '':/go/bin:/usr/local/go/bin'')"
  let ?a2 = "append (fst ?a1) (snd ?a1) ''DEV_CONTAINER=true''"
  have a: "arr ?e < nextAddr h" using v by (simp add: validSlice_def)
  have e2: "elems ?h2 ?e = snapshotEnv h cj"
    using a by (simp add: literal_elems_old literal_fields snapshotEnv_def)
  have v2: "validSlice ?h2 ?e" using v by (simp add: literal_valid)
  have v3: "validSlice (fst ?a1) (snd ?a1)" using v2 by (rule append_valid)
  have "elems (fst ?a2) (snd ?a2) =
          (elems ?h2 ?e @ [p @ '':/go/bin:/usr/local/go/bin'']) @ [''DEV_CONTAINER=true'']"
    using append_elems_new[OF v3] append_elems_new[OF v2] by simp
  then show ?thesis
    using f e2
    by (simp add: derivedEnv_def derived_def derive_unfold Let_def readConfig_def elems_def)
qed

lemma ex_derived:
  "derived exHeap ''/home/dev'' exSnapshot ''docker-dev-golang:latest'' ''/tmp/x'' ''/app'' =
     Inr (exDevConfig, exDevHostConfig, \<lparr>EndpointsConfig = [(''backend'', ''ep1'')]\<rparr>)"
  by code_simp

lemma ex_snapshotEnv_nopath:
  "snapshotEnv exHeapNoPath exSnapshot = [''HOME=/root'', ''MODE=prod'']"
  by code_simp

lemma ex_derivedEnv_nopath:
  "derivedEnv exHeapNoPath ''/home/dev'' exSnapshot ''docker-dev-golang:latest'' ''/tmp/x''
     ''/app'' =
   Inr [''HOME=/root'', ''MODE=prod'', '':/go/bin:/usr/local/go/bin'', ''DEV_CONTAINER=true'']"
  by code_simp

text \<open>
  An entry shorter than four bytes, met before any entry that starts with \<^verbatim>\<open>PATH\<close>,
  makes the deriver panic at \<^verbatim>\<open>env[:4]\<close>.
\<close>

lemma derive_panics_on_short_entry:
  "snapshotEnv exHeapShort exSnapshot = [''A=1'', ''MODE=prod''] \<and>
   derived exHeapShort ''/home/dev'' exSnapshot ''docker-dev-golang:latest'' ''/tmp/x'' ''/app'' =
     Inl SliceBoundsOutOfRange"
  by code_simp

text \<open>
  C6.  Whenever the deriver returns, the mount list of the derived host configuration is
  exactly four bind mounts, in this order: the source path onto the target path, then
  \<^verbatim>\<open>$HOME/.ssh\<close> onto \<^verbatim>\<open>/root/.ssh\<close>, \<^verbatim>\<open>$HOME/.gitconfig\<close> onto \<^verbatim>\<open>/root/.gitconfig\<close> and
  \<^verbatim>\<open>$HOME/go/pkg\<close> onto \<^verbatim>\<open>/go/pkg\<close>; the mounts of the original do not appear in it.
\<close>

theorem dev_mounts_exactly_four:
  "derived h homeDir cj img src tgt = Inr (c, hc, nc) \<Longrightarrow>
   Mounts hc =
     [\<lparr>Type = TypeBind, Source = src, Target = tgt\<rparr>,
      \<lparr>Type = TypeBind, Source = homeDir @ ''/.ssh'', Target = ''/root/.ssh''\<rparr>,
      \<lparr>Type = TypeBind, Source = homeDir @ ''/.gitconfig'', Target = ''/root/.gitconfig''\<rparr>,
      \<lparr>Type = TypeBind, Source = homeDir @ ''/go/pkg'', Target = ''/go/pkg''\<rparr>]"
  by (auto simp add: derived_def derive_unfold Let_def split: sum.splits)

theorem dev_mounts_exactly_four_witness:
  "derived exHeap ''/home/dev'' exSnapshot ''docker-dev-golang:latest'' ''/tmp/x'' ''/app'' =
     Inr (exDevConfig, exDevHostConfig, \<lparr>EndpointsConfig = [(''backend'', ''ep1'')]\<rparr>) \<and>
   Mounts exDevHostConfig =
     [\<lparr>Type = TypeBind, Source = ''/tmp/x'', Target = ''/app''\<rparr>,
      \<lparr>Type = TypeBind, Source = ''/home/dev'' @ ''/.ssh'', Target = ''/root/.ssh''\<rparr>,
      \<lparr>Type = TypeBind, Source = ''/home/dev'' @ ''/.gitconfig'', Target = ''/root/.gitconfig''\<rparr>,
      \<lparr>Type = TypeBind, Source = ''/home/dev'' @ ''/go/pkg'', Target = ''/go/pkg''\<rparr>] \<and>
   Mounts (hostConfigs exHeap (HostConfigP exSnapshot)) =
     [\<lparr>Type = TypeVolume, Source = ''data'', Target = ''/data''\<rparr>]"
proof -
  have "Mounts (hostConfigs exHeap (HostConfigP exSnapshot)) =
          [\<lparr>Type = TypeVolume, Source = ''data'', Target = ''/data''\<rparr>]"
    by (simp add: exHeap_def)
  then show ?thesis
    using ex_derived dev_mounts_exactly_four [OF ex_derived] by simp
qed

text \<open>
  C5, as the code has it.  When every entry of the environment list is at least four bytes
  long and none has the variable name \<^verbatim>\<open>PATH\<close>, the deriver returns, and the environment
  list of the derived configuration is the input followed by exactly two entries: one that
  ends in the toolchain suffix, then the marker \<^verbatim>\<open>DEV_CONTAINER=true\<close>.  When no entry
  starts with the bytes \<^verbatim>\<open>PATH\<close>, the first new entry is the suffix alone.
\<close>

theorem derive_env_without_PATH:
  assumes "validSlice h (Env (configs h (ConfigP cj)))"
      and "\<forall>e\<in>set (snapshotEnv h cj). envName e \<noteq> ''PATH'' \<and> 4 \<le> length e"
  shows "\<exists>p. derivedEnv h homeDir cj img src tgt =
               Inr (snapshotEnv h cj @
                    [p @ '':/go/bin:/usr/local/go/bin'', ''DEV_CONTAINER=true'']) \<and>
             ((\<forall>e\<in>set (snapshotEnv h cj). take 4 e \<noteq> ''PATH'') \<longrightarrow> p = '''')"
proof -
  from assms(2) have "\<forall>e\<in>set (snapshotEnv h cj). 4 \<le> length e" by simp
  from findPATH_ok [OF this] obtain p where
    p: "findPATH (snapshotEnv h cj) = Inr p"
       "(\<forall>e\<in>set (snapshotEnv h cj). take 4 e \<noteq> ''PATH'') \<longrightarrow> p = ''''"
    by blast
  from derivedEnv_eq [OF assms(1) p(1)] p(2) show ?thesis by blast
qed

theorem derive_env_without_PATH_witness:
  "validSlice exHeapNoPath (Env (configs exHeapNoPath (ConfigP exSnapshot))) \<and>
   list_all (\<lambda>e. envName e \<noteq> ''PATH'' \<and> 4 \<le> length e \<and> take 4 e \<noteq> ''PATH'')
     (snapshotEnv exHeapNoPath exSnapshot) \<and>
   derivedEnv exHeapNoPath ''/home/dev'' exSnapshot ''docker-dev-golang:latest'' ''/tmp/x''
     ''/app'' =
   Inr (snapshotEnv exHeapNoPath exSnapshot @
        ['''' @ '':/go/bin:/usr/local/go/bin'', ''DEV_CONTAINER=true''])"
proof -
  have v: "validSlice exHeapNoPath (Env (configs exHeapNoPath (ConfigP exSnapshot)))"
    by (simp add: validSlice_def exHeapNoPath_def exHeap_def exConfig_def exSnapshot_def)
  have n: "\<forall>e\<in>set (snapshotEnv exHeapNoPath exSnapshot). envName e \<noteq> ''PATH'' \<and> 4 \<le> length e"
    by (simp add: ex_snapshotEnv_nopath envName_def)
  have t: "\<forall>e\<in>set (snapshotEnv exHeapNoPath exSnapshot). take 4 e \<noteq> ''PATH''"
    by (simp add: ex_snapshotEnv_nopath)
  from derive_env_without_PATH [OF v n, of "''/home/dev''" "''docker-dev-golang:latest''"
      "''/tmp/x''" "''/app''"] t
  have "derivedEnv exHeapNoPath ''/home/dev'' exSnapshot ''docker-dev-golang:latest'' ''/tmp/x''
          ''/app'' =
        Inr (snapshotEnv exHeapNoPath exSnapshot @
             ['''' @ '':/go/bin:/usr/local/go/bin'', ''DEV_CONTAINER=true''])"
    by auto
  with v n t show ?thesis by (simp add: list_all_iff)
qed

text \<open>
  Counterexample to C5 as stated: with the environment \<^verbatim>\<open>HOME=/root\<close>, \<^verbatim>\<open>MODE=prod\<close> (no \<^verbatim>\<open>PATH\<close>)
  the derived list has two more entries than the input, not one, and its last entry is
  the marker, not an entry ending in the toolchain suffix.
\<close>

theorem derive_env_counterexample:
  "map envName (snapshotEnv exHeapNoPath exSnapshot) = [''HOME'', ''MODE''] \<and>
   derivedEnv exHeapNoPath ''/home/dev'' exSnapshot ''docker-dev-golang:latest'' ''/tmp/x''
     ''/app'' =
   Inr [''HOME=/root'', ''MODE=prod'', '':/go/bin:/usr/local/go/bin'', ''DEV_CONTAINER=true''] \<and>
   length [''HOME=/root'', ''MODE=prod'', '':/go/bin:/usr/local/go/bin'', ''DEV_CONTAINER=true'']
     \<noteq> Suc (length (snapshotEnv exHeapNoPath exSnapshot))"
  using ex_derivedEnv_nopath by (simp add: ex_snapshotEnv_nopath envName_def)

section \<open>Sequencing\<close>

lemma fst_andThen:
  "fst (andThen m f) = fst m @ (case snd m of Inl e \<Rightarrow> [] | Inr x \<Rightarrow> fst (f x))"
  by (cases m) (auto simp: andThen_def split: sum.splits prod.splits)

lemma snd_andThen:
  "snd (andThen m f) = (case snd m of Inl e \<Rightarrow> Inl e | Inr x \<Rightarrow> snd (f x))"
  by (cases m) (auto simp: andThen_def split: sum.splits prod.splits)

lemma finish_eq: "finish m = (fst m, case snd m of Inl e \<Rightarrow> e | Inr x \<Rightarrow> ExitOK)"
  by (cases m) (auto simp: finish_def split: sum.splits)

section \<open>The clone step\<close>

lemma LastIndex_absent: "c \<notin> set xs \<Longrightarrow> LastIndex xs c = - 1"
  by (induction xs) (auto simp: Let_def)

lemma LastIndex_present: "c \<in> set xs \<Longrightarrow> 0 \<le> LastIndex xs c"
  by (induction xs) (auto simp: Let_def)

lemma LastIndex_append:
  "LastIndex (xs @ ys) c =
     (if c \<in> set ys then int (length xs) + LastIndex ys c else LastIndex xs c)"
  by (induction xs) (auto simp: Let_def LastIndex_absent LastIndex_present)

lemma LastIndex_snoc: "LastIndex (xs @ [c]) c = int (length xs)"
  by (simp add: LastIndex_append)


lemma repo_name_of_git_url:
  assumes "CHR ''/'' \<notin> set nm" and "pre = [] \<or> last pre = CHR ''/''"
  shows "sliceStr (pre @ nm @ ''.git'') (LastIndex (pre @ nm @ ''.git'') CHR ''/'' + 1)
           (LastIndex (pre @ nm @ ''.git'') CHR ''.'') = Inr nm"
proof -
  have d: "LastIndex (pre @ nm @ ''.git'') CHR ''.'' = int (length pre + length nm)"
    by (simp add: LastIndex_append Let_def)
  have s: "LastIndex (pre @ nm @ ''.git'') CHR ''/'' + 1 = int (length pre)"
  proof (cases "pre = []")
    case True
    then show ?thesis using assms(1) by (simp add: LastIndex_append LastIndex_absent)
  next
    case False
    with assms(2) obtain p where p: "pre = p @ [CHR ''/'']"
      by (metis append_butlast_last_id)
    have "CHR ''/'' \<notin> set (nm @ ''.git'')" using assms(1) by simp
    then have "LastIndex (pre @ (nm @ ''.git'')) CHR ''/'' = LastIndex pre CHR ''/''"
      by (simp only: LastIndex_append if_False)
    also have "\<dots> = int (length p)" unfolding p by (rule LastIndex_snoc)
    finally show ?thesis using p by simp
  qed
  show ?thesis unfolding d s by (simp add: sliceStr_def)
qed

text \<open>
  For a URL that ends in \<^verbatim>\<open>.git\<close>, the target is \<^verbatim>\<open>/tmp/\<close> followed by what stands between
  the last \<^verbatim>\<open>/\<close> and that suffix; an existing directory there is removed, then git is run.
\<close>

lemma clone_target_of_git_url:
  assumes "CHR ''/'' \<notin> set nm" and "pre = [] \<or> last pre = CHR ''/''"
  shows "cloneRemoteRepo w (pre @ nm @ ''.git'') b =
           ([Stat (''/tmp/'' @ nm)] @ (if statTarget w then [RemoveAll (''/tmp/'' @ nm)] else []) @
            [Exec ''git'' ([''clone'', pre @ nm @ ''.git'', ''/tmp/'' @ nm] @
                           (if b \<noteq> '''' then [''-b'', b, ''--single-branch''] else []))],
            case gitClone w of
              None \<Rightarrow> Inr (''/tmp/'' @ nm)
            | Some err \<Rightarrow> Inl (Fatal ''Failed to clone repository: %v'' [ArgErr err]))"
  using repo_name_of_git_url [OF assms]
  by (simp add: cloneRemoteRepo_def Let_def andThen_def orFatal_def outcome_def returns_def
           split: option.splits)

text \<open>
  C9.  The claim holds for URLs that end in \<^verbatim>\<open>.git\<close> (\<open>clone_target_of_git_url\<close>), not for
  every URL: for \<^verbatim>\<open>https://github.com/org/repo\<close> the last \<^verbatim>\<open>.\<close> stands before the last
  \<^verbatim>\<open>/\<close>, the slice expression of main.go:138 panics, and the process ends before anything
  is cloned.
\<close>

theorem clone_panics_without_extension:
  "cloneRemoteRepo w ''https://github.com/org/repo'' b =
     ([], Inl (Panicked SliceBoundsOutOfRange)) \<and>
   main (a\<lparr>remote := ''https://github.com/org/repo''\<rparr>) w =
     ([], Panicked SliceBoundsOutOfRange)"
  by (simp add: main_def cloneRemoteRepo_def sliceStr_def Let_def andThen_def finish_def)

text \<open>
  C10.  With \<^verbatim>\<open>-remote\<close> set and \<^verbatim>\<open>-name\<close> empty, a run whose clone succeeds stats the
  target directory, removes it when it exists, runs git, and only then ends with the
  missing-argument error.
\<close>

theorem clone_before_name:
  assumes "remote a \<noteq> ''''" and "containerName a = ''''"
      and "sliceStr (remote a) (LastIndex (remote a) CHR ''/'' + 1)
             (LastIndex (remote a) CHR ''.'') = Inr repoName"
      and "statTarget w" and "gitClone w = None"
  shows "main a w =
           ([Stat (''/tmp/'' @ repoName), RemoveAll (''/tmp/'' @ repoName),
             Exec ''git'' ([''clone'', remote a, ''/tmp/'' @ repoName] @
                           (if branch a \<noteq> '''' then [''-b'', branch a, ''--single-branch'']
                            else []))],
            Fatal ''Argument for -name is required'' [])"
  using assms
  by (simp add: main_def cloneRemoteRepo_def Let_def andThen_def orFatal_def outcome_def
        returns_def fatalf_def finish_def)

theorem clone_before_name_witness:
  "remote exCloneArgs \<noteq> '''' \<and> containerName exCloneArgs = '''' \<and>
   sliceStr (remote exCloneArgs) (LastIndex (remote exCloneArgs) CHR ''/'' + 1)
     (LastIndex (remote exCloneArgs) CHR ''.'') = Inr ''repo'' \<and>
   statTarget exWorld \<and> gitClone exWorld = None \<and>
   main exCloneArgs exWorld =
     ([Stat ''/tmp/repo'', RemoveAll ''/tmp/repo'',
       Exec ''git'' [''clone'', ''git@host:org/repo.git'', ''/tmp/repo'', ''-b'', ''dev'',
                     ''--single-branch'']],
      Fatal ''Argument for -name is required'' [])"
proof -
  have 1: "remote exCloneArgs \<noteq> ''''" and 2: "containerName exCloneArgs = ''''"
    by (simp_all add: exCloneArgs_def exArgs_def)
  have 3: "sliceStr (remote exCloneArgs) (LastIndex (remote exCloneArgs) CHR ''/'' + 1)
     (LastIndex (remote exCloneArgs) CHR ''.'') = Inr ''repo''"
    by (simp add: exCloneArgs_def exArgs_def sliceStr_def Let_def)
  have 4: "statTarget exWorld" and 5: "gitClone exWorld = None"
    by (simp_all add: exWorld_def)
  from clone_before_name [OF 1 2 3 4 5] 1 2 3 4 5 show ?thesis
    by (simp add: exCloneArgs_def exArgs_def)
qed

section \<open>The order of operations up to the snapshot\<close>

lemma clone_setup: "list_all setupOp (fst (cloneRemoteRepo w r b))"
  by (simp add: cloneRemoteRepo_def Let_def andThen_def orFatal_def outcome_def returns_def
           split: sum.splits option.splits)

lemma clone_abort: "snd (cloneRemoteRepo w r b) = Inl e \<Longrightarrow> nonZeroExit e"
  by (auto simp add: cloneRemoteRepo_def Let_def andThen_def orFatal_def outcome_def returns_def
        nonZeroExit_def split: sum.splits option.splits)

lemma searchContainers_find:
  "searchContainers cs n =
     map_option ID (find (\<lambda>c. ''/'' @ n \<in> set (Names c)) cs)"
proof -
  have m: "\<And>ns. matchNames ns n = (''/'' @ n \<in> set ns)"
    subgoal for ns by (induction ns) auto
    done
  show ?thesis by (induction cs) (simp_all add: m)
qed

text \<open>
  Every run either ends with a non-zero status having made setup calls only, or has
  located the container and inspected it successfully, and continues with lines 268--292.
\<close>

lemma main_shape:
  "(nonZeroExit (snd (main a w)) \<and> list_all setupOp (fst (main a w))) \<or>
   (\<exists>pre cid h cj src cs.
      containerList w = Inr cs \<and> searchContainers cs (containerName a) = Some cid \<and>
      inspectOriginal w = Inr (h, cj) \<and> list_all setupOp pre \<and>
      fst (main a w) = pre @ ContainerInspect cid # fst (swapContainers w a h cj cid src) \<and>
      snd (main a w) = (case snd (swapContainers w a h cj cid src) of Inl e \<Rightarrow> e | Inr x \<Rightarrow> ExitOK))"
  (is "?early \<or> ?late")
proof -
  let ?c = "if remote a \<noteq> '''' then cloneRemoteRepo w (remote a) (branch a)
            else returns (sourcePath a)"
  note defs = main_def finish_eq fst_andThen snd_andThen orFatal_def outcome_def
    getContainerIDByName_def fatalf_def returns_def nonZeroExit_def
  have c1: "list_all setupOp (fst ?c)"
    using clone_setup by (simp add: returns_def)
  have c2: "\<And>e. snd ?c = Inl e \<Longrightarrow> nonZeroExit e"
    using clone_abort by (auto simp: returns_def split: if_splits)
  show ?thesis
  proof (cases "snd ?c")
    case (Inl e)
    with c1 c2[OF Inl] have ?early
      by (simp add: main_def finish_eq fst_andThen snd_andThen)
    then show ?thesis ..
  next
    case src: (Inr src)
    show ?thesis
    proof (cases "containerName a = ''''")
      case True
      with c1 src have ?early by (simp add: defs)
      then show ?thesis ..
    next
      case name: False
      show ?thesis
      proof (cases "newClient w")
        case (Some err)
        with c1 src name have ?early by (simp add: defs)
        then show ?thesis ..
      next
        case client: None
        show ?thesis
        proof (cases "containerList w")
          case (Inl err)
          with c1 src name client have ?early by (simp add: defs)
          then show ?thesis ..
        next
          case cs: (Inr cs)
          show ?thesis
          proof (cases "searchContainers cs (containerName a)")
            case None
            with c1 src name client cs have ?early by (simp add: defs)
            then show ?thesis ..
          next
            case cid: (Some cid)
            show ?thesis
            proof (cases "inspectOriginal w")
              case (Inl err)
              with c1 src name client cs cid have ?early by (simp add: defs)
              then show ?thesis ..
            next
              case (Inr hc)
              obtain h cj where hc: "hc = (h, cj)" by (cases hc)
              have "containerList w = Inr cs \<and> searchContainers cs (containerName a) = Some cid \<and>
                inspectOriginal w = Inr (h, cj) \<and>
                list_all setupOp (fst ?c @ [NewClient, ContainerList True]) \<and>
                fst (main a w) = (fst ?c @ [NewClient, ContainerList True]) @
                    ContainerInspect cid # fst (swapContainers w a h cj cid src) \<and>
                snd (main a w) = (case snd (swapContainers w a h cj cid src) of
                                    Inl e \<Rightarrow> e | Inr x \<Rightarrow> ExitOK)"
                using c1 src name client cs cid Inr hc by (simp add: defs)
              then have ?late by blast
              then show ?thesis ..
            qed
          qed
        qed
      qed
    qed
  qed
qed

lemma setup_no_touch: "list_all setupOp t \<Longrightarrow> \<not> list_ex touchesContainer t"
proof -
  have "\<not> touchesContainer c" if "setupOp c" for c
    using that by (cases c) simp_all
  then show "list_all setupOp t \<Longrightarrow> \<not> list_ex touchesContainer t"
    by (auto simp: list_all_iff list_ex_iff)
qed

lemma setup_no_session: "list_all setupOp t \<Longrightarrow> \<not> list_ex (sessionOp n) t"
proof -
  have "\<not> sessionOp n c" if "setupOp c" for c
    using that by (cases c) (simp_all add: sessionOp_def received_def)
  then show "list_all setupOp t \<Longrightarrow> \<not> list_ex (sessionOp n) t"
    by (auto simp: list_all_iff list_ex_iff)
qed

lemma ex_main:
  "main exArgs exWorld =
   ([NewClient, ContainerList True, ContainerInspect ''c0ffee'',
     Output ''Stopping original container'' [], ContainerStop ''c0ffee'' 0,
     ContainerWait ''c0ffee'', Output ''Container stopped'' [],
     ContainerRemove ''c0ffee'', SignalNotify,
     ContainerCreate exDevConfig exDevHostConfig
       \<lparr>EndpointsConfig = [(''backend'', ''ep1'')]\<rparr> ''/api-dev'',
     SpawnAttach ''dev01'', Output ''Quit the container to restore the original one'' [],
     ContainerStart ''dev01'', SpawnWait ''dev01'',
     Output ''Interrupt signal received, stopping container...'' [],
     ContainerInspect ''dev01'', ContainerStop ''dev01'' 0, ContainerWait ''dev01'',
     Output ''Container stopped with status code: %d'' [ArgInt 137],
     ContainerRemove ''dev01'', Output ''Container removed successfully'' [],
     ContainerCreate (readConfig exHeap (ConfigP exSnapshot))
       (hostConfigs exHeap (HostConfigP exSnapshot))
       \<lparr>EndpointsConfig = [(''backend'', ''ep1'')]\<rparr> ''/api'',
     ContainerStart ''c0ffee2'',
     Output ''Original container %s started successfully'' [ArgStr ''/api'']],
    ExitOK)"
  by code_simp

lemma ex_main_missing:
  "main (exArgs\<lparr>containerName := ''web''\<rparr>) exWorld =
     ([NewClient, ContainerList True],
      Fatal ''Error getting Docker container's id by name: %v''
        [ArgErr ''container with name web not found''])"
  by code_simp

lemma ex_main_noinspect:
  "main exArgs (exWorld\<lparr>inspectOriginal := Inl ''No such container''\<rparr>) =
     ([NewClient, ContainerList True, ContainerInspect ''c0ffee''],
      Fatal ''Error inspecting container: %v'' [ArgErr ''No such container''])"
  by code_simp

text \<open>
  C7.  The lookup lists all containers, stopped ones included, and returns the ID of the
  first whose names contain \<^verbatim>\<open>"/" + name\<close>, or an error when there is none; in that case
  the run ends with a non-zero status and has stopped, removed, created or started no
  container.
\<close>

theorem locate_first_match:
  assumes "containerList w = Inr cs"
  shows "getContainerIDByName w n =
           ([ContainerList True],
            Inr (case find (\<lambda>c. ''/'' @ n \<in> set (Names c)) cs of
                   Some c \<Rightarrow> Inr (ID c)
                 | None \<Rightarrow> Inl (''container with name '' @ n @ '' not found''))) \<and>
         (find (\<lambda>c. ''/'' @ containerName a \<in> set (Names c)) cs = None \<longrightarrow>
            nonZeroExit (snd (main a w)) \<and> \<not> list_ex touchesContainer (fst (main a w)))"
proof -
  have "getContainerIDByName w n =
           ([ContainerList True],
            Inr (case find (\<lambda>c. ''/'' @ n \<in> set (Names c)) cs of
                   Some c \<Rightarrow> Inr (ID c)
                 | None \<Rightarrow> Inl (''container with name '' @ n @ '' not found'')))"
    using assms by (simp add: getContainerIDByName_def searchContainers_find split: option.splits)
  moreover have "nonZeroExit (snd (main a w)) \<and> \<not> list_ex touchesContainer (fst (main a w))"
    if "find (\<lambda>c. ''/'' @ containerName a \<in> set (Names c)) cs = None"
    using main_shape [of a w] that assms setup_no_touch by (auto simp: searchContainers_find)
  ultimately show ?thesis by blast
qed

theorem locate_first_match_witness:
  "containerList exWorld =
     Inr [\<lparr>ID = ''db01'', Names = [''/db'']\<rparr>, \<lparr>ID = ''c0ffee'', Names = [''/api'']\<rparr>] \<and>
   getContainerIDByName exWorld ''api'' = ([ContainerList True], Inr (Inr ''c0ffee'')) \<and>
   find (\<lambda>c. ''/'' @ containerName (exArgs\<lparr>containerName := ''web''\<rparr>) \<in> set (Names c))
     [\<lparr>ID = ''db01'', Names = [''/db'']\<rparr>, \<lparr>ID = ''c0ffee'', Names = [''/api'']\<rparr>] = None \<and>
   nonZeroExit (snd (main (exArgs\<lparr>containerName := ''web''\<rparr>) exWorld)) \<and>
   \<not> list_ex touchesContainer (fst (main (exArgs\<lparr>containerName := ''web''\<rparr>) exWorld))"
proof -
  have l: "containerList exWorld =
     Inr [\<lparr>ID = ''db01'', Names = [''/db'']\<rparr>, \<lparr>ID = ''c0ffee'', Names = [''/api'']\<rparr>]"
    by (simp add: exWorld_def)
  have f: "find (\<lambda>c. ''/'' @ containerName (exArgs\<lparr>containerName := ''web''\<rparr>) \<in> set (Names c))
     [\<lparr>ID = ''db01'', Names = [''/db'']\<rparr>, \<lparr>ID = ''c0ffee'', Names = [''/api'']\<rparr>] = None"
    by simp
  from locate_first_match [OF l, of "''api''" "exArgs\<lparr>containerName := ''web''\<rparr>"] f l
  show ?thesis by simp
qed

text \<open>
  C8.  In every run, a call that stops, removes, creates or starts a container comes after
  the \<^verbatim>\<open>ContainerInspect\<close> of the located container, which has succeeded, with no such
  call before that inspect; and when the inspect fails the run ends with a non-zero status
  and no such call at all.
\<close>

theorem inspect_precedes:
  "(\<forall>i < length (fst (main a w)). touchesContainer (fst (main a w) ! i) \<longrightarrow>
      (\<exists>h cj. inspectOriginal w = Inr (h, cj)) \<and>
      (\<exists>j < i. \<exists>cid cs. fst (main a w) ! j = ContainerInspect cid \<and>
          containerList w = Inr cs \<and> searchContainers cs (containerName a) = Some cid \<and>
          (\<forall>k < j. \<not> touchesContainer (fst (main a w) ! k)))) \<and>
   (\<forall>err. inspectOriginal w = Inl err \<longrightarrow>
      nonZeroExit (snd (main a w)) \<and> \<not> list_ex touchesContainer (fst (main a w)))"
proof -
  consider (early) "nonZeroExit (snd (main a w))" "\<not> list_ex touchesContainer (fst (main a w))"
    | (late) pre cid h cj rest cs where "inspectOriginal w = Inr (h, cj)"
        "\<not> list_ex touchesContainer pre" "fst (main a w) = pre @ ContainerInspect cid # rest"
        "containerList w = Inr cs" "searchContainers cs (containerName a) = Some cid"
  proof -
    from main_shape [of a w] show ?thesis
    proof (elim disjE exE conjE)
      assume "nonZeroExit (snd (main a w))" and "list_all setupOp (fst (main a w))"
      then show ?thesis using setup_no_touch early by blast
    next
      fix pre cid h cj src cs
      assume "inspectOriginal w = Inr (h, cj)" and "list_all setupOp pre"
        and "fst (main a w) = pre @ ContainerInspect cid # fst (swapContainers w a h cj cid src)"
        and "containerList w = Inr cs" and "searchContainers cs (containerName a) = Some cid"
      then show ?thesis using setup_no_touch late by blast
    qed
  qed
  then show ?thesis
  proof cases
    case early
    then show ?thesis by (auto simp: list_ex_iff)
  next
    case late
    have "\<exists>j < i. \<exists>c cs. fst (main a w) ! j = ContainerInspect c \<and>
            containerList w = Inr cs \<and> searchContainers cs (containerName a) = Some c \<and>
            (\<forall>k < j. \<not> touchesContainer (fst (main a w) ! k))"
      if "i < length (fst (main a w))" "touchesContainer (fst (main a w) ! i)" for i
    proof -
      have "\<not> i < length pre"
        using late(2,3) that(2) by (auto simp: list_ex_iff nth_append)
      moreover have "i \<noteq> length pre" using late(3) that(2) by auto
      ultimately have "length pre < i" by simp
      moreover have "fst (main a w) ! length pre = ContainerInspect cid"
        using late(3) by simp
      moreover have "\<forall>k < length pre. \<not> touchesContainer (fst (main a w) ! k)"
        using late(2,3) by (auto simp: list_ex_iff nth_append)
      ultimately show ?thesis using late(4,5) by blast
    qed
    with late(1) show ?thesis by auto
  qed
qed

theorem inspect_precedes_witness:
  "4 < length (fst (main exArgs exWorld)) \<and>
   fst (main exArgs exWorld) ! 4 = ContainerStop ''c0ffee'' 0 \<and>
   touchesContainer (fst (main exArgs exWorld) ! 4) \<and>
   fst (main exArgs exWorld) ! 2 = ContainerInspect ''c0ffee'' \<and>
   (\<exists>h cj. inspectOriginal exWorld = Inr (h, cj)) \<and>
   (\<exists>j < 4. \<exists>cid cs. fst (main exArgs exWorld) ! j = ContainerInspect cid \<and>
       containerList exWorld = Inr cs \<and> searchContainers cs (containerName exArgs) = Some cid \<and>
       (\<forall>k < j. \<not> touchesContainer (fst (main exArgs exWorld) ! k))) \<and>
   inspectOriginal (exWorld\<lparr>inspectOriginal := Inl ''No such container''\<rparr>) =
     Inl ''No such container'' \<and>
   nonZeroExit (snd (main exArgs (exWorld\<lparr>inspectOriginal := Inl ''No such container''\<rparr>))) \<and>
   \<not> list_ex touchesContainer
       (fst (main exArgs (exWorld\<lparr>inspectOriginal := Inl ''No such container''\<rparr>)))"
proof -
  have a: "4 < length (fst (main exArgs exWorld))"
    and b: "fst (main exArgs exWorld) ! 4 = ContainerStop ''c0ffee'' 0"
    and c: "fst (main exArgs exWorld) ! 2 = ContainerInspect ''c0ffee''"
    by (simp_all add: ex_main)
  have d: "touchesContainer (fst (main exArgs exWorld) ! 4)" by (simp add: b)
  have e: "inspectOriginal (exWorld\<lparr>inspectOriginal := Inl ''No such container''\<rparr>) =
     Inl ''No such container''" by simp
  from inspect_precedes [of exArgs exWorld] a d
  have 1: "(\<exists>h cj. inspectOriginal exWorld = Inr (h, cj)) \<and>
   (\<exists>j < 4. \<exists>cid cs. fst (main exArgs exWorld) ! j = ContainerInspect cid \<and>
       containerList exWorld = Inr cs \<and> searchContainers cs (containerName exArgs) = Some cid \<and>
       (\<forall>k < j. \<not> touchesContainer (fst (main exArgs exWorld) ! k)))" by blast
  from inspect_precedes [of exArgs "exWorld\<lparr>inspectOriginal := Inl ''No such container''\<rparr>"] e
  have 2: "nonZeroExit (snd (main exArgs (exWorld\<lparr>inspectOriginal := Inl ''No such container''\<rparr>))) \<and>
   \<not> list_ex touchesContainer
       (fst (main exArgs (exWorld\<lparr>inspectOriginal := Inl ''No such container''\<rparr>)))" by blast
  from a b c d e 1 2 show ?thesis by blast
qed

section \<open>The termination channel\<close>

lemma coordinate_snoc: "coordinate rid (es @ [e]) = step rid (coordinate rid es) e"
  by (simp add: coordinate_def)

lemma signal_list: "length (xs :: signal list) \<le> 1 \<Longrightarrow> xs \<noteq> [] \<Longrightarrow> xs = [SIGINT]"
  by (cases xs) (auto intro: signal.exhaust)



lemma step_bounds:
  "length (buf s) \<le> 1 \<Longrightarrow> length (observed s) \<le> 1 \<Longrightarrow>
   length (buf (step rid s e)) \<le> 1 \<and> length (observed (step rid s e)) \<le> 1"
  by (cases e rule: fires.cases)
     (auto simp: step_def notify_def send_def receive_def waitWatcher_def attachWatcher_def
        chanCap_def split: option.splits list.splits)

lemma coordinate_bounds:
  "length (buf (coordinate rid es)) \<le> 1 \<and> length (observed (coordinate rid es)) \<le> 1"
proof (induction es rule: rev_induct)
  case Nil
  show ?case by (simp add: coordinate_def coord0_def)
next
  case (snoc e es)
  then show ?case using step_bounds by (simp add: coordinate_snoc)
qed

lemma step_killed_None: "killed (step rid s e) = None \<Longrightarrow> killed s = None"
  by (cases "killed s") (auto simp: step_def)

lemma step_not_failed:
  "killed s = None \<Longrightarrow> \<not> attachFailed e \<Longrightarrow> killed (step rid s e) = None"
  by (cases e rule: fires.cases)
     (auto simp: step_def notify_def send_def receive_def waitWatcher_def attachWatcher_def
        split: option.splits list.splits)

lemma coordinate_not_killed:
  "\<not> list_ex attachFailed es \<Longrightarrow> killed (coordinate rid es) = None"
proof (induction es rule: rev_induct)
  case Nil
  show ?case by (simp add: coordinate_def coord0_def)
next
  case (snoc e es)
  then show ?case by (simp add: coordinate_snoc step_not_failed)
qed

lemma step_pending:
  "killed s = None \<Longrightarrow> \<not> attachFailed e \<Longrightarrow> pending s \<or> fires e \<Longrightarrow> pending (step rid s e)"
  by (cases e rule: fires.cases)
     (auto simp: pending_def step_def notify_def send_def receive_def waitWatcher_def
        attachWatcher_def chanCap_def split: option.splits list.splits)

lemma coordinate_pending:
  "\<not> list_ex attachFailed es \<Longrightarrow> list_ex fires es \<Longrightarrow> pending (coordinate rid es)"
proof (induction es rule: rev_induct)
  case Nil
  then show ?case by simp
next
  case (snoc e es)
  then have nf: "\<not> list_ex attachFailed es" "\<not> attachFailed e" by simp_all
  have "pending (coordinate rid es) \<or> fires e"
    using snoc by auto
  then show ?case
    using coordinate_not_killed [OF nf(1)] nf(2) by (simp add: coordinate_snoc step_pending)
qed

lemma receive_after_fire:
  assumes "\<not> list_ex attachFailed es" and "list_ex fires es"
  shows "observed (step rid (coordinate rid es) MainReceives) = [SIGINT]"
    and "killed (step rid (coordinate rid es) MainReceives) = None"
proof -
  let ?s = "coordinate rid es"
  have k: "killed ?s = None" using assms(1) by (rule coordinate_not_killed)
  have p: "pending ?s" using assms by (rule coordinate_pending)
  have "observed (step rid ?s MainReceives) \<noteq> []"
    using k p by (auto simp: pending_def step_def receive_def split: list.splits)
  moreover have "length (observed (step rid ?s MainReceives)) \<le> 1"
    using coordinate_bounds [of rid es] step_bounds by blast
  ultimately show "observed (step rid ?s MainReceives) = [SIGINT]" by (simp add: signal_list)
  show "killed (step rid ?s MainReceives) = None" using k by (simp add: step_not_failed)
qed

section \<open>From the swap to the end of the run\<close>

lemma removeOriginal_quiet: "\<not> list_ex (sessionOp n) (fst (removeOriginalContainer w cid))"
  by (simp add: removeOriginalContainer_def fst_andThen orFatal_def outcome_def
        waitForContainerStop_def sessionOp_def received_def
      split: option.splits sum.splits wait_result.splits)

lemma removeOriginal_abort: "snd (removeOriginalContainer w cid) = Inl e \<Longrightarrow> nonZeroExit e"
  by (auto simp add: removeOriginalContainer_def snd_andThen orFatal_def outcome_def
        waitForContainerStop_def nonZeroExit_def
      split: option.splits sum.splits)

lemma startDev_quiet:
  "\<not> list_ex (sessionOp n) (fst (startDevContainer w h cp hp nc (n @ ''-dev'')))"
  by (simp add: startDevContainer_def fst_andThen orFatal_def outcome_def returns_def
        sessionOp_def received_def
      split: option.splits sum.splits)

lemma startDev_abort: "snd (startDevContainer w h cp hp nc n) = Inl e \<Longrightarrow> nonZeroExit e"
  by (auto simp add: startDevContainer_def snd_andThen orFatal_def outcome_def returns_def
        nonZeroExit_def
      split: option.splits sum.splits)

lemma startDev_returns:
  "snd (startDevContainer w h cp hp nc n) = Inr rid \<Longrightarrow> createDev w = Inr rid"
  by (auto simp add: startDevContainer_def snd_andThen orFatal_def outcome_def returns_def
      split: option.splits sum.splits)

text \<open>
  Lines 268--285 either end the process with a non-zero status, or start the development
  container and the wait goroutine and go on to the receive.
\<close>

lemma swap_shape:
  "(\<exists>e. snd (swapContainers w a h cj cid src) = Inl e \<and> nonZeroExit e \<and>
        \<not> list_ex (sessionOp (Name cj)) (fst (swapContainers w a h cj cid src))) \<or>
   (\<exists>pre h' cp hp nc rid.
      devContainerConfiguration h (home w) cj (newImage a) src (targetPath a) =
        Inr (h', cp, hp, nc) \<and>
      createDev w = Inr rid \<and> \<not> list_ex (sessionOp (Name cj)) pre \<and>
      fst (swapContainers w a h cj cid src) =
        pre @ SpawnWait rid # fst (awaitAndRestore w rid h' cj nc) \<and>
      snd (swapContainers w a h cj cid src) = snd (awaitAndRestore w rid h' cj nc))"
  (is "?early \<or> ?late")
proof (cases "snd (removeOriginalContainer w cid)")
  case (Inl e)
  then have ?early
    using removeOriginal_quiet [of "Name cj" w cid] removeOriginal_abort [OF Inl]
    by (simp add: swapContainers_def fst_andThen snd_andThen)
  then show ?thesis ..
next
  case rm: (Inr u)
  show ?thesis
  proof (cases "devContainerConfiguration h (home w) cj (newImage a) src (targetPath a)")
    case (Inl p)
    then have ?early
      using rm removeOriginal_quiet [of "Name cj" w cid]
      by (simp add: swapContainers_def fst_andThen snd_andThen nonZeroExit_def)
    then show ?thesis ..
  next
    case (Inr r)
    obtain h' cp hp nc where r: "r = (h', cp, hp, nc)" by (cases r)
    let ?st = "startDevContainer w h' cp hp nc (Name cj @ ''-dev'')"
    show ?thesis
    proof (cases "snd ?st")
      case (Inl e)
      then have ?early
        using rm Inr r removeOriginal_quiet [of "Name cj" w cid]
          startDev_quiet [of "Name cj" w h' cp hp nc] startDev_abort [OF Inl]
        by (simp add: swapContainers_def fst_andThen snd_andThen sessionOp_def received_def)
      then show ?thesis ..
    next
      case st: (Inr rid)
      let ?pre = "fst (removeOriginalContainer w cid) @ [SignalNotify] @ fst ?st"
      have "devContainerConfiguration h (home w) cj (newImage a) src (targetPath a) =
              Inr (h', cp, hp, nc) \<and>
            createDev w = Inr rid \<and> \<not> list_ex (sessionOp (Name cj)) ?pre \<and>
            fst (swapContainers w a h cj cid src) =
              ?pre @ SpawnWait rid # fst (awaitAndRestore w rid h' cj nc) \<and>
            snd (swapContainers w a h cj cid src) = snd (awaitAndRestore w rid h' cj nc)"
        using rm Inr r st removeOriginal_quiet [of "Name cj" w cid]
          startDev_quiet [of "Name cj" w h' cp hp nc] startDev_returns [OF st]
        by (simp add: swapContainers_def fst_andThen snd_andThen sessionOp_def received_def)
      then have ?late by blast
      then show ?thesis ..
    qed
  qed
qed

lemma step_clog_quiet:
  "\<not> list_ex (sessionOp n) (clog s) \<Longrightarrow> \<not> list_ex (sessionOp n) (clog (step rid s e))"
  by (cases e rule: fires.cases)
     (auto simp: step_def notify_def send_def receive_def waitWatcher_def attachWatcher_def
        waitForContainerStop_def sessionOp_def received_def
        split: option.splits list.splits wait_result.splits)

lemma coordinate_clog_quiet: "\<not> list_ex (sessionOp n) (clog (coordinate rid es))"
proof (induction es rule: rev_induct)
  case Nil
  show ?case by (simp add: coordinate_def coord0_def)
next
  case (snoc e es)
  then show ?case by (simp add: coordinate_snoc step_clog_quiet)
qed

lemma final_clog_quiet:
  "\<not> list_ex (sessionOp n) (clog (step rid (coordinate rid es) e))"
  by (rule step_clog_quiet [OF coordinate_clog_quiet])

lemma cutShort_None: "cutShort None n m = m"
  by (simp add: cutShort_def)

lemma cutShort_subset: "set (fst (cutShort k n m)) \<subseteq> set (fst m)"
  by (auto simp: cutShort_def split: option.splits dest: in_set_takeD)

lemma cutShort_Inr: "snd (cutShort k n m) = Inr x \<Longrightarrow> cutShort k n m = m"
  by (auto simp: cutShort_def split: option.splits if_splits)

lemma cleanup_no_create: "\<not> list_ex (createsNamed n) (fst (cleanupDevContainer w rid))"
  by (simp add: cleanupDevContainer_def fst_andThen orFatal_def outcome_def returns_def
        waitForContainerStop_def
      split: option.splits sum.splits wait_result.splits)

lemma cleanup_no_session: "\<not> list_ex isSpawnWait (fst (cleanupDevContainer w rid))"
  by (simp add: cleanupDevContainer_def fst_andThen orFatal_def outcome_def returns_def
        waitForContainerStop_def
      split: option.splits sum.splits wait_result.splits)

lemma cleanup_result:
  "snd (cleanupDevContainer w rid) =
     (case inspectDev w of
        Inl err \<Rightarrow> Inl (Panicked (PanicError err))
      | Inr running \<Rightarrow>
         (case removeDev w of
            Some err \<Rightarrow> Inl (Fatal ''Error removing container: %v'' [ArgErr err])
          | None \<Rightarrow> Inr ()))"
  by (simp add: cleanupDevContainer_def snd_andThen orFatal_def outcome_def returns_def
        waitForContainerStop_def
      split: option.splits sum.splits)


lemma recreate_trace:
  "\<exists>rest. fst (recreateOriginalContainer w h cj nc) =
     ContainerCreate (readConfig h (ConfigP cj)) (hostConfigs h (HostConfigP cj)) nc (Name cj)
       # rest \<and> \<not> list_ex (createsNamed n) rest \<and> \<not> list_ex isSpawnWait rest"
  by (simp add: recreateOriginalContainer_def fst_andThen orFatal_def outcome_def
      split: option.splits sum.splits)

lemma await_unfold:
  "awaitAndRestore w rid h cj nc =
     (let s = step rid (coordinate rid (schedule w)) MainReceives;
          m = cutShort (killed s) (killPoint w)
                (andThen (cleanupDevContainer w rid) (\<lambda>_. recreateOriginalContainer w h cj nc))
      in if observed s = []
         then (clog s, Inl (case killed s of Some e \<Rightarrow> e | None \<Rightarrow> BlockedForever))
         else (clog s @ received # fst m, snd m))"
  by (simp add: awaitAndRestore_def Let_def andThen_def split: prod.splits sum.splits)

lemma await_no_spawn: "\<not> list_ex isSpawnWait (fst (awaitAndRestore w rid h cj nc))"
proof -
  let ?s = "step rid (coordinate rid (schedule w)) MainReceives"
  let ?m = "andThen (cleanupDevContainer w rid) (\<lambda>_. recreateOriginalContainer w h cj nc)"
  have c: "\<not> list_ex isSpawnWait (clog ?s)"
    using final_clog_quiet [of "[]" rid "schedule w" MainReceives]
    by (auto simp: sessionOp_def list_ex_iff)
  obtain rest where "fst (recreateOriginalContainer w h cj nc) =
     ContainerCreate (readConfig h (ConfigP cj)) (hostConfigs h (HostConfigP cj)) nc (Name cj)
       # rest" "\<not> list_ex isSpawnWait rest"
    using recreate_trace by blast
  then have "\<not> list_ex isSpawnWait (fst ?m)"
    using cleanup_no_session [of w rid] by (simp add: fst_andThen split: sum.splits)
  then have "\<not> list_ex isSpawnWait (fst (cutShort (killed ?s) (killPoint w) ?m))"
    using cutShort_subset [of "killed ?s" "killPoint w" ?m] by (auto simp: list_ex_iff)
  with c show ?thesis
    by (simp add: await_unfold Let_def received_def)
qed

lemma no_session_iff:
  "\<not> list_ex (sessionOp n) t \<longleftrightarrow>
     \<not> list_ex isSpawnWait t \<and> received \<notin> set t \<and> \<not> list_ex (createsNamed n) t"
  by (auto simp: sessionOp_def list_ex_iff)

text \<open>
  Every run either ends with a non-zero status before the wait goroutine is started,
  having neither passed the receive nor created a container under the original name, or
  reaches line 280 with the snapshot, the derived configuration and the development
  container at hand.
\<close>

lemma main_run_shape:
  "(nonZeroExit (snd (main a w)) \<and> \<not> list_ex isSpawnWait (fst (main a w)) \<and>
    received \<notin> set (fst (main a w)) \<and>
    (\<forall>h cj. inspectOriginal w = Inr (h, cj) \<longrightarrow>
        \<not> list_ex (createsNamed (Name cj)) (fst (main a w)))) \<or>
   (\<exists>pre h cj src h' cp hp nc rid.
      inspectOriginal w = Inr (h, cj) \<and>
      devContainerConfiguration h (home w) cj (newImage a) src (targetPath a) =
        Inr (h', cp, hp, nc) \<and>
      createDev w = Inr rid \<and> \<not> list_ex (sessionOp (Name cj)) pre \<and>
      fst (main a w) = pre @ SpawnWait rid # fst (awaitAndRestore w rid h' cj nc) \<and>
      snd (main a w) =
        (case snd (awaitAndRestore w rid h' cj nc) of Inl e \<Rightarrow> e | Inr x \<Rightarrow> ExitOK))"
  (is "?early \<or> ?late")
proof -
  from main_shape [of a w] show ?thesis
  proof (elim disjE exE conjE)
    assume e: "nonZeroExit (snd (main a w))" and q: "list_all setupOp (fst (main a w))"
    have "\<not> list_ex (sessionOp n) (fst (main a w))" for n
      using q by (rule setup_no_session)
    then have ?early using e by (simp add: no_session_iff)
    then show ?thesis ..
  next
    fix pre cid h cj src cs
    assume i: "inspectOriginal w = Inr (h, cj)" and q: "list_all setupOp pre"
      and t: "fst (main a w) = pre @ ContainerInspect cid # fst (swapContainers w a h cj cid src)"
      and r: "snd (main a w) =
               (case snd (swapContainers w a h cj cid src) of Inl e \<Rightarrow> e | Inr x \<Rightarrow> ExitOK)"
    have qp: "\<not> list_ex (sessionOp (Name cj)) (pre @ [ContainerInspect cid])"
      using setup_no_session [OF q, of "Name cj"] by (simp add: sessionOp_def received_def)
    from swap_shape [of w a h cj cid src] show ?thesis
    proof (elim disjE exE conjE)
      fix e
      assume "snd (swapContainers w a h cj cid src) = Inl e" and "nonZeroExit e"
        and "\<not> list_ex (sessionOp (Name cj)) (fst (swapContainers w a h cj cid src))"
      then have "nonZeroExit (snd (main a w)) \<and> \<not> list_ex (sessionOp (Name cj)) (fst (main a w))"
        using qp t r by simp
      then have ?early using i by (simp add: no_session_iff)
      then show ?thesis ..
    next
      fix pre2 h' cp hp nc rid
      assume d: "devContainerConfiguration h (home w) cj (newImage a) src (targetPath a) =
                   Inr (h', cp, hp, nc)"
        and c: "createDev w = Inr rid" and q2: "\<not> list_ex (sessionOp (Name cj)) pre2"
        and t2: "fst (swapContainers w a h cj cid src) =
                   pre2 @ SpawnWait rid # fst (awaitAndRestore w rid h' cj nc)"
        and r2: "snd (swapContainers w a h cj cid src) = snd (awaitAndRestore w rid h' cj nc)"
      have "\<not> list_ex (sessionOp (Name cj)) ((pre @ [ContainerInspect cid]) @ pre2) \<and>
            fst (main a w) =
              ((pre @ [ContainerInspect cid]) @ pre2) @
                SpawnWait rid # fst (awaitAndRestore w rid h' cj nc)"
        using qp q2 t t2 by simp
      with i d c r r2 have ?late by metis
      then show ?thesis ..
    qed
  qed
qed

lemma reach_run:
  assumes "SpawnWait rid \<in> set (fst (main a w))" and "inspectOriginal w = Inr (h, cj)"
  shows "\<exists>pre src h' cp hp nc.
      devContainerConfiguration h (home w) cj (newImage a) src (targetPath a) =
        Inr (h', cp, hp, nc) \<and>
      \<not> list_ex (sessionOp (Name cj)) pre \<and>
      fst (main a w) = pre @ SpawnWait rid # fst (awaitAndRestore w rid h' cj nc) \<and>
      snd (main a w) =
        (case snd (awaitAndRestore w rid h' cj nc) of Inl e \<Rightarrow> e | Inr x \<Rightarrow> ExitOK)"
proof -
  from main_run_shape [of a w] show ?thesis
  proof (elim disjE exE conjE)
    assume "\<not> list_ex isSpawnWait (fst (main a w))"
    with assms(1) show ?thesis by (auto simp: list_ex_iff)
  next
    fix pre h0 cj0 src h' cp hp nc rid0
    assume i: "inspectOriginal w = Inr (h0, cj0)"
      and d: "devContainerConfiguration h0 (home w) cj0 (newImage a) src (targetPath a) =
                Inr (h', cp, hp, nc)"
      and q: "\<not> list_ex (sessionOp (Name cj0)) pre"
      and t: "fst (main a w) = pre @ SpawnWait rid0 # fst (awaitAndRestore w rid0 h' cj0 nc)"
      and r: "snd (main a w) =
               (case snd (awaitAndRestore w rid0 h' cj0 nc) of Inl e \<Rightarrow> e | Inr x \<Rightarrow> ExitOK)"
    have hc: "h0 = h" "cj0 = cj" using i assms(2) by simp_all
    have "SpawnWait rid \<notin> set pre" using q by (auto simp: list_ex_iff sessionOp_def)
    moreover have "SpawnWait rid \<notin> set (fst (awaitAndRestore w rid0 h' cj0 nc))"
      using await_no_spawn [of w rid0 h' cj0 nc] by (auto simp: list_ex_iff)
    ultimately have "rid0 = rid" using assms(1) t by auto
    with hc d q t r show ?thesis by blast
  qed
qed

text \<open>The goroutines inspect, stop, remove, create and start nothing.\<close>

lemma step_clog_no_teardown:
  "\<not> list_ex teardownOp (clog s) \<Longrightarrow> \<not> list_ex teardownOp (clog (step rid s e))"
  by (cases e rule: fires.cases)
     (auto simp: step_def notify_def send_def receive_def waitWatcher_def attachWatcher_def
        waitForContainerStop_def
        split: option.splits list.splits wait_result.splits)

lemma coordinate_clog_no_teardown: "\<not> list_ex teardownOp (clog (coordinate rid es))"
proof (induction es rule: rev_induct)
  case Nil
  show ?case by (simp add: coordinate_def coord0_def)
next
  case (snoc e es)
  then show ?case by (simp add: coordinate_snoc step_clog_no_teardown)
qed

lemma final_clog_no_teardown:
  "\<not> list_ex teardownOp (clog (step rid (coordinate rid es) e))"
  by (rule step_clog_no_teardown [OF coordinate_clog_no_teardown])

lemma foldl_killed: "killed s \<noteq> None \<Longrightarrow> foldl (step rid) s es = s"
  by (induction es) (simp_all add: step_def)

lemma attach_fails_first:
  assumes "observed (coordinate rid es) = []" and "\<not> list_ex attachFailed es"
  shows "observed (step rid (coordinate rid (es @ AttachReturns (Some err) # rest)) MainReceives)
           = [] \<and>
         killed (step rid (coordinate rid (es @ AttachReturns (Some err) # rest)) MainReceives)
           = Some (Fatal ''Error attaching to container: %v'' [ArgErr err])"
proof -
  let ?s1 = "coordinate rid es"
  let ?s2 = "step rid ?s1 (AttachReturns (Some err))"
  have k1: "killed ?s1 = None" using assms(2) by (rule coordinate_not_killed)
  have s2: "observed ?s2 = [] \<and>
            killed ?s2 = Some (Fatal ''Error attaching to container: %v'' [ArgErr err])"
    using k1 assms(1) by (simp add: step_def attachWatcher_def)
  then have k2: "killed ?s2 \<noteq> None" by simp
  have "coordinate rid (es @ AttachReturns (Some err) # rest) = foldl (step rid) ?s2 rest"
    by (simp add: coordinate_def)
  also have "\<dots> = ?s2" using k2 by (rule foldl_killed)
  finally have "step rid (coordinate rid (es @ AttachReturns (Some err) # rest)) MainReceives = ?s2"
    using k2 by (simp add: step_def)
  with s2 show ?thesis by simp
qed

text \<open>After a receive with no attach failure, lines 288--292 run to their own end.\<close>

lemma after_receive:
  assumes reach: "SpawnWait rid \<in> set (fst (main a w))"
      and snap: "inspectOriginal w = Inr (h, cj)"
      and fired: "list_ex fires (schedule w)"
      and nofail: "\<not> list_ex attachFailed (schedule w)"
  shows "\<exists>pre src h' cp hp nc.
      devContainerConfiguration h (home w) cj (newImage a) src (targetPath a) =
        Inr (h', cp, hp, nc) \<and>
      \<not> list_ex (createsNamed (Name cj)) pre \<and>
      fst (main a w) =
        pre @ received #
          fst (andThen (cleanupDevContainer w rid) (\<lambda>_. recreateOriginalContainer w h' cj nc)) \<and>
      snd (main a w) =
        (case snd (andThen (cleanupDevContainer w rid)
                     (\<lambda>_. recreateOriginalContainer w h' cj nc)) of
           Inl e \<Rightarrow> e | Inr x \<Rightarrow> ExitOK)"
proof -
  let ?s = "step rid (coordinate rid (schedule w)) MainReceives"
  from reach_run [OF reach snap] obtain pre src h' cp hp nc where
    d: "devContainerConfiguration h (home w) cj (newImage a) src (targetPath a) =
          Inr (h', cp, hp, nc)"
    and q: "\<not> list_ex (sessionOp (Name cj)) pre"
    and t: "fst (main a w) = pre @ SpawnWait rid # fst (awaitAndRestore w rid h' cj nc)"
    and r: "snd (main a w) =
             (case snd (awaitAndRestore w rid h' cj nc) of Inl e \<Rightarrow> e | Inr x \<Rightarrow> ExitOK)"
    by blast
  let ?m = "andThen (cleanupDevContainer w rid) (\<lambda>_. recreateOriginalContainer w h' cj nc)"
  have o: "observed ?s = [SIGINT]" and k: "killed ?s = None"
    using receive_after_fire [OF nofail fired] by simp_all
  have aw: "awaitAndRestore w rid h' cj nc = (clog ?s @ received # fst ?m, snd ?m)"
    using o k by (simp add: await_unfold Let_def cutShort_None)
  have "\<not> list_ex (createsNamed (Name cj)) (pre @ SpawnWait rid # clog ?s)"
    using q final_clog_quiet [of "Name cj" rid "schedule w" MainReceives]
    by (simp add: no_session_iff)
  moreover have "fst (main a w) = (pre @ SpawnWait rid # clog ?s) @ received # fst ?m"
    using t aw by simp
  moreover have "snd (main a w) = (case snd ?m of Inl e \<Rightarrow> e | Inr x \<Rightarrow> ExitOK)"
    using r aw by simp
  ultimately show ?thesis using d by blast
qed

text \<open>
  C1, as the code has it.  In a run that has started the development container (it reached
  line 280): when the attach process exits without error and never fails, the main goroutine
  passes the receive and goes through \<open>cleanupDevContainer\<close> and
  \<open>recreateOriginalContainer\<close>, whose outcome is the outcome of the run; when the attach
  process fails before the main goroutine has received, the process ends with
  \<^verbatim>\<open>log.Fatalf("Error attaching to container: %v")\<close>, without passing the receive and
  without creating a container under the original name: after the start of the wait
  goroutine no container is inspected, stopped, removed, created or started.
\<close>

theorem attach_exit_and_failure:
  assumes reach: "SpawnWait rid \<in> set (fst (main a w))"
      and snap: "inspectOriginal w = Inr (h, cj)"
  shows "(AttachReturns None \<in> set (schedule w) \<and> \<not> list_ex attachFailed (schedule w) \<longrightarrow>
            (\<exists>pre h' nc.
               fst (main a w) =
                 pre @ received #
                   fst (andThen (cleanupDevContainer w rid)
                          (\<lambda>_. recreateOriginalContainer w h' cj nc)) \<and>
               snd (main a w) =
                 (case snd (andThen (cleanupDevContainer w rid)
                              (\<lambda>_. recreateOriginalContainer w h' cj nc)) of
                    Inl e \<Rightarrow> e | Inr x \<Rightarrow> ExitOK))) \<and>
         (\<forall>es err rest.
            schedule w = es @ AttachReturns (Some err) # rest \<and>
            observed (coordinate rid es) = [] \<and> \<not> list_ex attachFailed es \<longrightarrow>
              snd (main a w) = Fatal ''Error attaching to container: %v'' [ArgErr err] \<and>
              received \<notin> set (fst (main a w)) \<and>
              \<not> list_ex (createsNamed (Name cj)) (fst (main a w)) \<and>
              (\<exists>pre post. fst (main a w) = pre @ SpawnWait rid # post \<and>
                  \<not> list_ex teardownOp post))"
proof (intro conjI allI impI)
  assume a: "AttachReturns None \<in> set (schedule w) \<and> \<not> list_ex attachFailed (schedule w)"
  then have "fires (AttachReturns None) \<and> AttachReturns None \<in> set (schedule w)" by simp
  then have "list_ex fires (schedule w)" unfolding list_ex_iff by blast
  from after_receive [OF reach snap this] a
  show "\<exists>pre h' nc.
               fst (main a w) =
                 pre @ received #
                   fst (andThen (cleanupDevContainer w rid)
                          (\<lambda>_. recreateOriginalContainer w h' cj nc)) \<and>
               snd (main a w) =
                 (case snd (andThen (cleanupDevContainer w rid)
                              (\<lambda>_. recreateOriginalContainer w h' cj nc)) of
                    Inl e \<Rightarrow> e | Inr x \<Rightarrow> ExitOK)"
    by blast
next
  fix es err rest
  assume b: "schedule w = es @ AttachReturns (Some err) # rest \<and>
            observed (coordinate rid es) = [] \<and> \<not> list_ex attachFailed es"
  let ?s = "step rid (coordinate rid (schedule w)) MainReceives"
  from reach_run [OF reach snap] obtain pre src h' cp hp nc where
    q: "\<not> list_ex (sessionOp (Name cj)) pre"
    and t: "fst (main a w) = pre @ SpawnWait rid # fst (awaitAndRestore w rid h' cj nc)"
    and r: "snd (main a w) =
             (case snd (awaitAndRestore w rid h' cj nc) of Inl e \<Rightarrow> e | Inr x \<Rightarrow> ExitOK)"
    by blast
  have s: "observed ?s = [] \<and>
           killed ?s = Some (Fatal ''Error attaching to container: %v'' [ArgErr err])"
    using b attach_fails_first [of rid es err rest] by simp
  then have aw: "awaitAndRestore w rid h' cj nc =
                   (clog ?s, Inl (Fatal ''Error attaching to container: %v'' [ArgErr err]))"
    by (simp add: await_unfold Let_def)
  have c: "\<not> list_ex (sessionOp (Name cj)) (clog ?s)" by (rule final_clog_quiet)
  show "snd (main a w) = Fatal ''Error attaching to container: %v'' [ArgErr err]"
    using r aw by simp
  show "received \<notin> set (fst (main a w))"
    using t aw q c by (simp add: no_session_iff received_def)
  show "\<not> list_ex (createsNamed (Name cj)) (fst (main a w))"
    using t aw q c by (simp add: no_session_iff)
  have "fst (main a w) = pre @ SpawnWait rid # clog ?s \<and> \<not> list_ex teardownOp (clog ?s)"
    using t aw final_clog_no_teardown [of rid "schedule w" MainReceives] by simp
  then show "\<exists>pre post. fst (main a w) = pre @ SpawnWait rid # post \<and>
                  \<not> list_ex teardownOp post"
    by blast
qed












section \<open>The snapshot after the derivation\<close>

text \<open>What a successful call of the deriver changes in the heap.\<close>

lemma derive_result:
  assumes "devContainerConfiguration h homeDir cj img src tgt = Inr (h', cp, hp, nc)"
  obtains found where
    "findPATH (elems (fst (literal (fst (literal h [])) [''/bin/sh'']))
        (Env (configs h (ConfigP cj)))) = Inr found"
    "arrays h' = arrays (fst (append
        (fst (append (fst (literal (fst (literal h [])) [''/bin/sh'']))
                (Env (configs h (ConfigP cj))) (found @ '':/go/bin:/usr/local/go/bin'')))
        (snd (append (fst (literal (fst (literal h [])) [''/bin/sh'']))
                (Env (configs h (ConfigP cj))) (found @ '':/go/bin:/usr/local/go/bin'')))
        ''DEV_CONTAINER=true''))"
    "nextAddr h < cp" "hp = Suc cp"
    "configs h' = (configs h)(cp := configs h' cp)"
    "hostConfigs h' = (hostConfigs h)(hp := hostConfigs h' hp)"
    "nc = \<lparr>EndpointsConfig = Networks cj\<rparr>"
proof (cases "findPATH (elems (fst (literal (fst (literal h [])) [''/bin/sh'']))
        (Env (configs h (ConfigP cj))))")
  case (Inl p)
  with assms show ?thesis by (simp add: derive_unfold Let_def)
next
  case (Inr found)
  let ?h2 = "fst (literal (fst (literal h [])) [''/bin/sh''])"
  let ?a1 = "append ?h2 (Env (configs h (ConfigP cj))) (found @ '':/go/bin:/usr/local/go/bin'')"
  let ?a2 = "append (fst ?a1) (snd ?a1) ''DEV_CONTAINER=true''"
  have n: "nextAddr h < nextAddr (fst ?a2)"
    using append_fields(1) [of ?h2 "Env (configs h (ConfigP cj))"
            "found @ '':/go/bin:/usr/local/go/bin''"]
          append_fields(1) [of "fst ?a1" "snd ?a1" "''DEV_CONTAINER=true''"]
    by (simp add: literal_fields)
  show ?thesis
  proof (rule that [OF Inr])
    show "arrays h' = arrays (fst ?a2)"
      using assms Inr by (auto simp add: derive_unfold Let_def)
    show "nextAddr h < cp" using assms Inr n by (auto simp add: derive_unfold Let_def)
    show "hp = Suc cp" using assms Inr by (auto simp add: derive_unfold Let_def)
    show "configs h' = (configs h)(cp := configs h' cp)"
      using assms Inr by (auto simp add: derive_unfold Let_def append_fields literal_fields)
    show "hostConfigs h' = (hostConfigs h)(hp := hostConfigs h' hp)"
      using assms Inr by (auto simp add: derive_unfold Let_def append_fields literal_fields)
    show "nc = \<lparr>EndpointsConfig = Networks cj\<rparr>"
      using assms Inr by (auto simp add: derive_unfold Let_def)
  qed
qed

text \<open>
  The two appends may write into the array of the environment list, beyond its length;
  a slice that does not reach into that spare capacity reads the same afterwards.
\<close>

lemma derive_keeps_elems:
  assumes d: "devContainerConfiguration h homeDir cj img src tgt = Inr (h', cp, hp, nc)"
      and t: "arr t < nextAddr h" and ap: "apart (Env (configs h (ConfigP cj))) t"
  shows "elems h' t = elems h t"
proof -
  let ?e = "Env (configs h (ConfigP cj))"
  let ?h1 = "fst (literal h [])"
  let ?h2 = "fst (literal ?h1 [''/bin/sh''])"
  from derive_result [OF d] obtain found where
    ar: "arrays h' = arrays (fst (append
        (fst (append ?h2 ?e (found @ '':/go/bin:/usr/local/go/bin'')))
        (snd (append ?h2 ?e (found @ '':/go/bin:/usr/local/go/bin'')))
        ''DEV_CONTAINER=true''))"
    by blast
  let ?a1 = "append ?h2 ?e (found @ '':/go/bin:/usr/local/go/bin'')"
  let ?a2 = "append (fst ?a1) (snd ?a1) ''DEV_CONTAINER=true''"
  have t1: "arr t < nextAddr ?h1" and t2: "arr t < nextAddr ?h2"
    using t by (simp_all add: literal_fields)
  have t3: "arr t < nextAddr (fst ?a1)"
    using t2 append_fields(1) [of ?h2 ?e "found @ '':/go/bin:/usr/local/go/bin''"] by simp
  have e2: "elems ?h2 t = elems h t"
    using t t1 by (simp add: literal_elems_old)
  have e3: "elems (fst ?a1) t = elems ?h2 t"
    using t2 ap by (intro append_elems_old) (simp_all add: apart_def)
  have "arr t \<noteq> arr (snd ?a1) \<or> len t \<le> len (snd ?a1)"
    using append_result_arr [of ?h2 ?e "found @ '':/go/bin:/usr/local/go/bin''"] ap t2
    by (auto simp: apart_def append_fields)
  then have e4: "elems (fst ?a2) t = elems (fst ?a1) t"
    using t3 by (intro append_elems_old)
  have "elems h' t = elems (fst ?a2) t" using ar by (simp add: elems_def)
  with e2 e3 e4 show ?thesis by simp
qed

lemma derive_frame:
  assumes ok: "snapshotOK h cj"
      and d: "devContainerConfiguration h homeDir cj img src tgt = Inr (h', cp, hp, nc)"
  shows "configs h' (ConfigP cj) = configs h (ConfigP cj) \<and>
         hostConfigs h' (HostConfigP cj) = hostConfigs h (HostConfigP cj) \<and>
         readConfig h' (ConfigP cj) = readConfig h (ConfigP cj) \<and>
         nc = \<lparr>EndpointsConfig = Networks cj\<rparr>"
proof -
  let ?c = "configs h (ConfigP cj)"
  from derive_result [OF d] have
    n: "nextAddr h < cp" "hp = Suc cp"
    and c: "configs h' = (configs h)(cp := configs h' cp)"
    and hc: "hostConfigs h' = (hostConfigs h)(hp := hostConfigs h' hp)"
    and nc: "nc = \<lparr>EndpointsConfig = Networks cj\<rparr>"
    by blast+
  have 1: "configs h' (ConfigP cj) = ?c"
    using ok n by (subst c) (simp add: snapshotOK_def Let_def)
  have 2: "hostConfigs h' (HostConfigP cj) = hostConfigs h (HostConfigP cj)"
    using ok n by (subst hc) (simp add: snapshotOK_def Let_def)
  have e: "elems h' (Env ?c) = elems h (Env ?c)"
    using ok by (intro derive_keeps_elems [OF d]) (simp_all add: snapshotOK_def Let_def apart_def)
  have m: "elems h' (Cmd ?c) = elems h (Cmd ?c)"
    using ok by (intro derive_keeps_elems [OF d]) (simp_all add: snapshotOK_def Let_def)
  have p: "elems h' (Entrypoint ?c) = elems h (Entrypoint ?c)"
    using ok by (intro derive_keeps_elems [OF d]) (simp_all add: snapshotOK_def Let_def)
  have 3: "readConfig h' (ConfigP cj) = readConfig h (ConfigP cj)"
    using 1 e m p by (simp add: readConfig_def Let_def)
  from 1 2 3 nc show ?thesis by blast
qed

lemma no_session_create:
  "\<not> list_ex (sessionOp n) t \<Longrightarrow> ContainerCreate c hc nc n \<notin> set t"
  by (auto simp: sessionOp_def list_ex_iff)

lemma await_creates:
  assumes "ContainerCreate c hc n (Name cj) \<in> set (fst (awaitAndRestore w rid h' cj nc))"
  shows "c = readConfig h' (ConfigP cj) \<and> hc = hostConfigs h' (HostConfigP cj) \<and> n = nc"
proof -
  let ?s = "step rid (coordinate rid (schedule w)) MainReceives"
  let ?m = "andThen (cleanupDevContainer w rid) (\<lambda>_. recreateOriginalContainer w h' cj nc)"
  let ?op = "ContainerCreate c hc n (Name cj)"
  obtain rest where rc: "fst (recreateOriginalContainer w h' cj nc) =
     ContainerCreate (readConfig h' (ConfigP cj)) (hostConfigs h' (HostConfigP cj)) nc (Name cj)
       # rest" and rq: "\<not> list_ex (createsNamed (Name cj)) rest"
    using recreate_trace by blast
  have 1: "?op \<notin> set (clog ?s)"
    using final_clog_quiet [of "Name cj" rid "schedule w" MainReceives]
    by (rule no_session_create)
  have 2: "?op \<notin> set (fst (cleanupDevContainer w rid))"
    using cleanup_no_create [of "Name cj" w rid] by (auto simp: list_ex_iff)
  have 3: "?op \<notin> set rest" using rq by (auto simp: list_ex_iff)
  have "?op \<in> set (fst (cutShort (killed ?s) (killPoint w) ?m))"
    using assms 1 by (auto simp: await_unfold Let_def received_def split: if_splits)
  then have "?op \<in> set (fst ?m)"
    using cutShort_subset [of "killed ?s" "killPoint w" ?m] by blast
  then have "?op \<in> set (fst (recreateOriginalContainer w h' cj nc))"
    using 2 by (auto simp: fst_andThen split: sum.splits)
  with rc 3 show ?thesis by auto
qed

lemma await_ok_creates:
  assumes "snd (awaitAndRestore w rid h' cj nc) = Inr x"
  shows "ContainerCreate (readConfig h' (ConfigP cj)) (hostConfigs h' (HostConfigP cj)) nc
           (Name cj) \<in> set (fst (awaitAndRestore w rid h' cj nc))"
proof -
  let ?s = "step rid (coordinate rid (schedule w)) MainReceives"
  let ?m = "andThen (cleanupDevContainer w rid) (\<lambda>_. recreateOriginalContainer w h' cj nc)"
  obtain rest where rc: "fst (recreateOriginalContainer w h' cj nc) =
     ContainerCreate (readConfig h' (ConfigP cj)) (hostConfigs h' (HostConfigP cj)) nc (Name cj)
       # rest"
    using recreate_trace by blast
  have o: "observed ?s \<noteq> []" and r: "snd (cutShort (killed ?s) (killPoint w) ?m) = Inr x"
    using assms by (auto simp: await_unfold Let_def split: if_splits)
  have m: "cutShort (killed ?s) (killPoint w) ?m = ?m" using r by (rule cutShort_Inr)
  then have "snd ?m = Inr x" using r by simp
  then obtain u where "snd (cleanupDevContainer w rid) = Inr u"
    by (auto simp: snd_andThen split: sum.splits)
  then have "fst ?m = fst (cleanupDevContainer w rid) @ fst (recreateOriginalContainer w h' cj nc)"
    by (simp add: fst_andThen)
  then show ?thesis using o m rc by (simp add: await_unfold Let_def)
qed

lemma step_killed_not_ok:
  "killed s \<noteq> Some ExitOK \<Longrightarrow> killed (step rid s e) \<noteq> Some ExitOK"
  by (cases e rule: fires.cases)
     (auto simp: step_def notify_def send_def receive_def waitWatcher_def attachWatcher_def
        split: option.splits list.splits)

lemma coordinate_killed_not_ok: "killed (coordinate rid es) \<noteq> Some ExitOK"
proof (induction es rule: rev_induct)
  case Nil
  show ?case by (simp add: coordinate_def coord0_def)
next
  case (snoc e es)
  then show ?case by (simp add: coordinate_snoc step_killed_not_ok)
qed

lemma tail_abort:
  "snd (andThen (cleanupDevContainer w rid) (\<lambda>_. recreateOriginalContainer w h cj nc)) \<noteq>
     Inl ExitOK"
  by (simp add: snd_andThen cleanup_result recreateOriginalContainer_def orFatal_def outcome_def
      split: sum.splits option.splits)

lemma await_abort: "snd (awaitAndRestore w rid h cj nc) \<noteq> Inl ExitOK"
proof -
  let ?s = "step rid (coordinate rid (schedule w)) MainReceives"
  have "killed ?s \<noteq> Some ExitOK"
    by (rule step_killed_not_ok [OF coordinate_killed_not_ok])
  then show ?thesis
    using tail_abort [of w rid h cj nc]
    by (auto simp: await_unfold Let_def cutShort_def split: option.splits)
qed

text \<open>
  C3.  For a snapshot as the decoder leaves it, a call of the deriver that returns leaves
  the two structs of the snapshot and what a reader sees through them (image, command,
  entrypoint, environment list, flags, mounts) as they were, and returns the network
  configuration of the snapshot.  In every run, a container created under the original
  name is created from exactly these values, that network configuration and that name; a
  run that ends successfully has created it.
\<close>

theorem snapshot_untouched:
  assumes ok: "snapshotOK h cj"
  shows "(\<forall>homeDir img src tgt h' cp hp nc.
            devContainerConfiguration h homeDir cj img src tgt = Inr (h', cp, hp, nc) \<longrightarrow>
              configs h' (ConfigP cj) = configs h (ConfigP cj) \<and>
              hostConfigs h' (HostConfigP cj) = hostConfigs h (HostConfigP cj) \<and>
              readConfig h' (ConfigP cj) = readConfig h (ConfigP cj) \<and>
              nc = \<lparr>EndpointsConfig = Networks cj\<rparr>) \<and>
         (\<forall>a w. inspectOriginal w = Inr (h, cj) \<longrightarrow>
            (\<forall>c hc n. ContainerCreate c hc n (Name cj) \<in> set (fst (main a w)) \<longrightarrow>
               c = readConfig h (ConfigP cj) \<and> hc = hostConfigs h (HostConfigP cj) \<and>
               n = \<lparr>EndpointsConfig = Networks cj\<rparr>) \<and>
            (snd (main a w) = ExitOK \<longrightarrow>
               ContainerCreate (readConfig h (ConfigP cj)) (hostConfigs h (HostConfigP cj))
                 \<lparr>EndpointsConfig = Networks cj\<rparr> (Name cj) \<in> set (fst (main a w))))"
proof (intro conjI allI impI)
  fix homeDir img src tgt h' cp hp nc
  assume d: "devContainerConfiguration h homeDir cj img src tgt = Inr (h', cp, hp, nc)"
  from derive_frame [OF ok d]
  show "configs h' (ConfigP cj) = configs h (ConfigP cj)"
    and "hostConfigs h' (HostConfigP cj) = hostConfigs h (HostConfigP cj)"
    and "readConfig h' (ConfigP cj) = readConfig h (ConfigP cj)"
    and "nc = \<lparr>EndpointsConfig = Networks cj\<rparr>"
    by simp_all
next
  fix a w c hc n
  assume snap: "inspectOriginal w = Inr (h, cj)"
    and mem: "ContainerCreate c hc n (Name cj) \<in> set (fst (main a w))"
  from main_run_shape [of a w]
  have "c = readConfig h (ConfigP cj) \<and> hc = hostConfigs h (HostConfigP cj) \<and>
        n = \<lparr>EndpointsConfig = Networks cj\<rparr>"
  proof (elim disjE exE conjE)
    assume "\<forall>h cj. inspectOriginal w = Inr (h, cj) \<longrightarrow>
              \<not> list_ex (createsNamed (Name cj)) (fst (main a w))"
    with snap mem show ?thesis by (auto simp: list_ex_iff)
  next
    fix pre h0 cj0 src h' cp hp nc rid
    assume i: "inspectOriginal w = Inr (h0, cj0)"
      and d: "devContainerConfiguration h0 (home w) cj0 (newImage a) src (targetPath a) =
                Inr (h', cp, hp, nc)"
      and q: "\<not> list_ex (sessionOp (Name cj0)) pre"
      and t: "fst (main a w) = pre @ SpawnWait rid # fst (awaitAndRestore w rid h' cj0 nc)"
    have e: "h0 = h" "cj0 = cj" using i snap by simp_all
    have "ContainerCreate c hc n (Name cj) \<notin> set pre"
      using q e no_session_create by blast
    then have "ContainerCreate c hc n (Name cj) \<in> set (fst (awaitAndRestore w rid h' cj nc))"
      using mem t e by auto
    from await_creates [OF this] derive_frame [OF ok d [unfolded e]] show ?thesis by simp
  qed
  then show "c = readConfig h (ConfigP cj)" and "hc = hostConfigs h (HostConfigP cj)"
    and "n = \<lparr>EndpointsConfig = Networks cj\<rparr>" by simp_all
next
  fix a w
  assume snap: "inspectOriginal w = Inr (h, cj)" and fin: "snd (main a w) = ExitOK"
  from main_run_shape [of a w]
  show "ContainerCreate (readConfig h (ConfigP cj)) (hostConfigs h (HostConfigP cj))
          \<lparr>EndpointsConfig = Networks cj\<rparr> (Name cj) \<in> set (fst (main a w))"
  proof (elim disjE exE conjE)
    assume "nonZeroExit (snd (main a w))"
    with fin show ?thesis by (simp add: nonZeroExit_def)
  next
    fix pre h0 cj0 src h' cp hp nc rid
    assume i: "inspectOriginal w = Inr (h0, cj0)"
      and d: "devContainerConfiguration h0 (home w) cj0 (newImage a) src (targetPath a) =
                Inr (h', cp, hp, nc)"
      and t: "fst (main a w) = pre @ SpawnWait rid # fst (awaitAndRestore w rid h' cj0 nc)"
      and r: "snd (main a w) =
               (case snd (awaitAndRestore w rid h' cj0 nc) of Inl e \<Rightarrow> e | Inr x \<Rightarrow> ExitOK)"
    have e: "h0 = h" "cj0 = cj" using i snap by simp_all
    have ne: "\<not> nonZeroExit ExitOK" by (simp add: nonZeroExit_def)
    obtain x where "snd (awaitAndRestore w rid h' cj nc) = Inr x"
    proof (cases "snd (awaitAndRestore w rid h' cj nc)")
      case (Inl ex)
      then have "ex = ExitOK" using r fin e by simp
      then have False
        using Inl await_abort [of w rid h' cj nc] by simp
      then show ?thesis ..
    next
      case (Inr x)
      then show ?thesis using that by blast
    qed
    from await_ok_creates [OF this] derive_frame [OF ok d [unfolded e]] t e
    show ?thesis by simp
  qed
qed

section \<open>The concrete runs against the theorems\<close>

text \<open>
  The snapshot of the concrete run is well formed.  Its environment list has length 2 in an
  array of capacity 4: the deriver appends in place, the array changes, and the snapshot
  still reads its two entries.
\<close>

lemma ex_snapshotOK: "snapshotOK exHeap exSnapshot"
  by (simp add: snapshotOK_def exHeap_def exSnapshot_def exConfig_def apart_def Let_def)

lemma ex_original:
  "readConfig exHeap (ConfigP exSnapshot) =
     \<lparr>Image = ''api:1.0'', WorkingDir = ''/srv'', Cmd = [''serve''],
      Entrypoint = [''/bin/api''], Env = [''PATH=/usr/bin'', ''MODE=prod''],
      AttachStdin = False, AttachStdout = False, AttachStderr = False, Tty = False,
      OpenStdin = False, StdinOnce = False\<rparr>"
  by code_simp

lemma ex_append_in_place:
  "map_sum id (\<lambda>(h', cp, hp, nc). (arrays h' 0, readConfig h' (ConfigP exSnapshot)))
     (devContainerConfiguration exHeap ''/home/dev'' exSnapshot ''docker-dev-golang:latest''
        ''/tmp/x'' ''/app'') =
   Inr ([''PATH=/usr/bin'', ''MODE=prod'', ''PATH=/usr/bin:/go/bin:/usr/local/go/bin'',
         ''DEV_CONTAINER=true''],
        \<lparr>Image = ''api:1.0'', WorkingDir = ''/srv'', Cmd = [''serve''],
         Entrypoint = [''/bin/api''], Env = [''PATH=/usr/bin'', ''MODE=prod''],
         AttachStdin = False, AttachStdout = False, AttachStderr = False, Tty = False,
         OpenStdin = False, StdinOnce = False\<rparr>)"
  by code_simp

text \<open>The variations of the run, evaluated.\<close>

lemma ex_attach_exits: "main exArgs exWorldAttachExits = main exArgs exWorld"
  by code_simp

lemma ex_attach_fails:
  "main exArgs exWorldAttachFails =
   ([NewClient, ContainerList True, ContainerInspect ''c0ffee'',
     Output ''Stopping original container'' [], ContainerStop ''c0ffee'' 0,
     ContainerWait ''c0ffee'', Output ''Container stopped'' [],
     ContainerRemove ''c0ffee'', SignalNotify,
     ContainerCreate exDevConfig exDevHostConfig
       \<lparr>EndpointsConfig = [(''backend'', ''ep1'')]\<rparr> ''/api-dev'',
     SpawnAttach ''dev01'', Output ''Quit the container to restore the original one'' [],
     ContainerStart ''dev01'', SpawnWait ''dev01''],
    Fatal ''Error attaching to container: %v'' [ArgErr ''exit status 1''])"
  by code_simp








text \<open>
  Two runs for C1: in one the attach process exits without error, in the other it fails.
\<close>

theorem attach_exit_and_failure_witness:
  "SpawnWait ''dev01'' \<in> set (fst (main exArgs exWorldAttachExits)) \<and>
   inspectOriginal exWorldAttachExits = Inr (exHeap, exSnapshot) \<and>
   AttachReturns None \<in> set (schedule exWorldAttachExits) \<and>
   \<not> list_ex attachFailed (schedule exWorldAttachExits) \<and>
   (\<exists>pre h' nc.
      fst (main exArgs exWorldAttachExits) =
        pre @ received #
          fst (andThen (cleanupDevContainer exWorldAttachExits ''dev01'')
                 (\<lambda>_. recreateOriginalContainer exWorldAttachExits h' exSnapshot nc)) \<and>
      snd (main exArgs exWorldAttachExits) =
        (case snd (andThen (cleanupDevContainer exWorldAttachExits ''dev01'')
                     (\<lambda>_. recreateOriginalContainer exWorldAttachExits h' exSnapshot nc)) of
           Inl e \<Rightarrow> e | Inr x \<Rightarrow> ExitOK)) \<and>
   snd (main exArgs exWorldAttachExits) = ExitOK \<and>
   SpawnWait ''dev01'' \<in> set (fst (main exArgs exWorldAttachFails)) \<and>
   inspectOriginal exWorldAttachFails = Inr (exHeap, exSnapshot) \<and>
   schedule exWorldAttachFails = [] @ AttachReturns (Some ''exit status 1'') # [] \<and>
   observed (coordinate ''dev01'' []) = [] \<and> \<not> list_ex attachFailed [] \<and>
   snd (main exArgs exWorldAttachFails) =
     Fatal ''Error attaching to container: %v'' [ArgErr ''exit status 1''] \<and>
   received \<notin> set (fst (main exArgs exWorldAttachFails)) \<and>
   \<not> list_ex (createsNamed (Name exSnapshot)) (fst (main exArgs exWorldAttachFails)) \<and>
   (\<exists>pre post. fst (main exArgs exWorldAttachFails) = pre @ SpawnWait ''dev01'' # post \<and>
       \<not> list_ex teardownOp post)"
proof -
  have r1: "SpawnWait ''dev01'' \<in> set (fst (main exArgs exWorldAttachExits))"
    and ok: "snd (main exArgs exWorldAttachExits) = ExitOK"
    by (simp_all add: ex_attach_exits ex_main)
  have s1: "inspectOriginal exWorldAttachExits = Inr (exHeap, exSnapshot)"
    and a1: "AttachReturns None \<in> set (schedule exWorldAttachExits)"
    and n1: "\<not> list_ex attachFailed (schedule exWorldAttachExits)"
    by (simp_all add: exWorldAttachExits_def exWorld_def)
  have r2: "SpawnWait ''dev01'' \<in> set (fst (main exArgs exWorldAttachFails))"
    by (simp add: ex_attach_fails)
  have s2: "inspectOriginal exWorldAttachFails = Inr (exHeap, exSnapshot)"
    and c2: "schedule exWorldAttachFails = [] @ AttachReturns (Some ''exit status 1'') # []"
    by (simp_all add: exWorldAttachFails_def exWorld_def)
  have o2: "observed (coordinate ''dev01'' []) = []" and n2: "\<not> list_ex attachFailed []"
    by (simp_all add: coordinate_def coord0_def)
  from attach_exit_and_failure [OF r1 s1] a1 n1
  have A: "\<exists>pre h' nc.
      fst (main exArgs exWorldAttachExits) =
        pre @ received #
          fst (andThen (cleanupDevContainer exWorldAttachExits ''dev01'')
                 (\<lambda>_. recreateOriginalContainer exWorldAttachExits h' exSnapshot nc)) \<and>
      snd (main exArgs exWorldAttachExits) =
        (case snd (andThen (cleanupDevContainer exWorldAttachExits ''dev01'')
                     (\<lambda>_. recreateOriginalContainer exWorldAttachExits h' exSnapshot nc)) of
           Inl e \<Rightarrow> e | Inr x \<Rightarrow> ExitOK)"
    by blast
  from attach_exit_and_failure [OF r2 s2] c2 o2 n2
  have B: "snd (main exArgs exWorldAttachFails) =
     Fatal ''Error attaching to container: %v'' [ArgErr ''exit status 1''] \<and>
   received \<notin> set (fst (main exArgs exWorldAttachFails)) \<and>
   \<not> list_ex (createsNamed (Name exSnapshot)) (fst (main exArgs exWorldAttachFails)) \<and>
   (\<exists>pre post. fst (main exArgs exWorldAttachFails) = pre @ SpawnWait ''dev01'' # post \<and>
       \<not> list_ex teardownOp post)"
    by blast
  from r1 ok s1 a1 n1 r2 s2 c2 o2 n2 A B show ?thesis by blast
qed

text \<open>
  Counterexample to C1 as stated: when \<^verbatim>\<open>docker attach\<close> fails first, the process ends with the fatal
  error of main.go:120 right after the wait goroutine was started; the development
  container is not removed and no container is created under the original name.
\<close>

theorem attach_failure_counterexample:
  "schedule exWorldAttachFails = [AttachReturns (Some ''exit status 1'')] \<and>
   snd (main exArgs exWorldAttachFails) =
     Fatal ''Error attaching to container: %v'' [ArgErr ''exit status 1''] \<and>
   last (fst (main exArgs exWorldAttachFails)) = SpawnWait ''dev01'' \<and>
   ContainerRemove ''dev01'' \<notin> set (fst (main exArgs exWorldAttachFails)) \<and>
   \<not> list_ex (createsNamed ''/api'') (fst (main exArgs exWorldAttachFails))"
  by (simp add: ex_attach_fails) (simp add: exWorldAttachFails_def exWorld_def)



text \<open>The concrete run for C3.\<close>

theorem snapshot_untouched_witness:
  "snapshotOK exHeap exSnapshot \<and>
   map_sum id (\<lambda>(h', cp, hp, nc). (arrays h' 0, readConfig h' (ConfigP exSnapshot)))
     (devContainerConfiguration exHeap ''/home/dev'' exSnapshot ''docker-dev-golang:latest''
        ''/tmp/x'' ''/app'') =
   Inr ([''PATH=/usr/bin'', ''MODE=prod'', ''PATH=/usr/bin:/go/bin:/usr/local/go/bin'',
         ''DEV_CONTAINER=true''],
        readConfig exHeap (ConfigP exSnapshot)) \<and>
   Env (readConfig exHeap (ConfigP exSnapshot)) = [''PATH=/usr/bin'', ''MODE=prod''] \<and>
   inspectOriginal exWorld = Inr (exHeap, exSnapshot) \<and>
   snd (main exArgs exWorld) = ExitOK \<and>
   ContainerCreate (readConfig exHeap (ConfigP exSnapshot))
     (hostConfigs exHeap (HostConfigP exSnapshot))
     \<lparr>EndpointsConfig = Networks exSnapshot\<rparr> (Name exSnapshot)
     \<in> set (fst (main exArgs exWorld))"
proof -
  have i: "inspectOriginal exWorld = Inr (exHeap, exSnapshot)" by (simp add: exWorld_def)
  have f: "snd (main exArgs exWorld) = ExitOK" by (simp add: ex_main)
  from snapshot_untouched [OF ex_snapshotOK] i f
  have "ContainerCreate (readConfig exHeap (ConfigP exSnapshot))
     (hostConfigs exHeap (HostConfigP exSnapshot))
     \<lparr>EndpointsConfig = Networks exSnapshot\<rparr> (Name exSnapshot)
     \<in> set (fst (main exArgs exWorld))"
    by blast
  then show ?thesis
    using ex_snapshotOK ex_append_in_place i f by (simp add: ex_original)
qed

end
